theory Spec2Isabelle
  imports Main "HOL-Library.Word"
begin

section \<open>The grammar of the sources\<close>

text \<open>
  The grammar is a jison (LALR(1)) grammar. Its lexical part lists regular expressions
  that are tried in the order written, the first one matching at the current position
  wins; its syntactic part is an ambiguous expression grammar made deterministic by the
  four \<^verbatim>\<open>%left\<close> declarations. The text is a list of 8-bit characters.
\<close>

subsection \<open>Tokens\<close>

datatype token =
  TRUE | FALSE | AND | OR | XOR | NOT | IDENTIFIER string
  | LPAREN | RPAREN | COMMA | EOF

text \<open>
  The character classes of the regular expressions: \<^verbatim>\<open>\s\<close> (the white space of
  JavaScript below code 256), \<^verbatim>\<open>[A-Za-z]\<close> and \<^verbatim>\<open>[_A-Za-z0-9]\<close>; the last one
  is also \<^verbatim>\<open>\w\<close>, which decides the word boundary \<^verbatim>\<open>\b\<close>.
\<close>

definition is_space :: "char \<Rightarrow> bool" where
  "is_space c = (let n = (of_char c :: nat) in (9 \<le> n \<and> n \<le> 13) \<or> n = 32 \<or> n = 160)"

definition is_alpha :: "char \<Rightarrow> bool" where
  "is_alpha c = (let n = (of_char c :: nat) in (65 \<le> n \<and> n \<le> 90) \<or> (97 \<le> n \<and> n \<le> 122))"

definition is_word :: "char \<Rightarrow> bool" where
  "is_word c = (let n = (of_char c :: nat) in is_alpha c \<or> (48 \<le> n \<and> n \<le> 57) \<or> n = 95)"

text \<open>
  A keyword rule such as \<^verbatim>\<open>"and"\<close>: jison closes a pattern that ends in a word
  character with \<^verbatim>\<open>\b\<close>, so the keyword matches only when no word character
  follows it.
\<close>

definition keyword :: "string \<Rightarrow> string \<Rightarrow> bool" where
  "keyword kw s =
     (take (length kw) s = kw \<and>
      (case drop (length kw) s of [] \<Rightarrow> True | c # _ \<Rightarrow> \<not> is_word c))"

text \<open>
  The lexer, run to the end of the text. The rules are tried in the order of the
  grammar file: white space (skipped), the six keywords, \<^verbatim>\<open>IDENTIFIER\<close>, the two
  parentheses, the comma and \<^verbatim>\<open><<EOF>>\<close>. Text that no rule matches is a lexical
  error (\<open>None\<close>).
\<close>

function lexer :: "string \<Rightarrow> token list option" where
  "lexer s =
     (if s \<noteq> [] \<and> is_space (hd s) then lexer (dropWhile is_space s)
      else if keyword ''true'' s then map_option ((#) TRUE) (lexer (drop 4 s))
      else if keyword ''false'' s then map_option ((#) FALSE) (lexer (drop 5 s))
      else if keyword ''and'' s then map_option ((#) AND) (lexer (drop 3 s))
      else if keyword ''or'' s then map_option ((#) OR) (lexer (drop 2 s))
      else if keyword ''xor'' s then map_option ((#) XOR) (lexer (drop 3 s))
      else if keyword ''not'' s then map_option ((#) NOT) (lexer (drop 3 s))
      else if s \<noteq> [] \<and> is_alpha (hd s) then
        map_option ((#) (IDENTIFIER (hd s # takeWhile is_word (tl s))))
          (lexer (dropWhile is_word (tl s)))
      else if s \<noteq> [] \<and> hd s = CHR ''('' then map_option ((#) LPAREN) (lexer (tl s))
      else if s \<noteq> [] \<and> hd s = CHR '')'' then map_option ((#) RPAREN) (lexer (tl s))
      else if s \<noteq> [] \<and> hd s = CHR '','' then map_option ((#) COMMA) (lexer (tl s))
      else if s = [] then Some [EOF]
      else None)"
  by pat_completeness auto
termination
proof (relation "measure length")
  show "wf (measure length)" by simp
next
  fix s :: string
  assume "s \<noteq> [] \<and> is_space (hd s)"
  then show "(dropWhile is_space s, s) \<in> measure length"
    by (cases s) (auto simp: le_imp_less_Suc length_dropWhile_le)
next
  fix s :: string
  assume "keyword ''true'' s"
  then show "(drop 4 s, s) \<in> measure length"
    by (cases s) (auto simp: keyword_def)
next
  fix s :: string
  assume "keyword ''false'' s"
  then show "(drop 5 s, s) \<in> measure length"
    by (cases s) (auto simp: keyword_def)
next
  fix s :: string
  assume "keyword ''and'' s"
  then show "(drop 3 s, s) \<in> measure length"
    by (cases s) (auto simp: keyword_def)
next
  fix s :: string
  assume "keyword ''or'' s"
  then show "(drop 2 s, s) \<in> measure length"
    by (cases s) (auto simp: keyword_def)
next
  fix s :: string
  assume "keyword ''xor'' s"
  then show "(drop 3 s, s) \<in> measure length"
    by (cases s) (auto simp: keyword_def)
next
  fix s :: string
  assume "keyword ''not'' s"
  then show "(drop 3 s, s) \<in> measure length"
    by (cases s) (auto simp: keyword_def)
next
  fix s :: string
  assume "s \<noteq> [] \<and> is_alpha (hd s)"
  then show "(dropWhile is_word (tl s), s) \<in> measure length"
    by (cases s) (auto simp: le_imp_less_Suc length_dropWhile_le)
qed auto

declare lexer.simps [simp del]

subsection \<open>Parse trees\<close>

text \<open>
  The semantic actions build plain objects:
  \<^verbatim>\<open>{node: 'binary', operator, lhs, rhs}\<close>, \<^verbatim>\<open>{node: 'unary', operator, operand}\<close>,
  \<^verbatim>\<open>{node: 'group', style: 1, content}\<close>, \<^verbatim>\<open>{node: 'identifier', name}\<close> and
  \<^verbatim>\<open>{node: 'constant', value}\<close>.
\<close>

datatype binary_operator = OpAND | OpOR | OpXOR

datatype unary_operator = OpNOT

datatype json =
  JBinary binary_operator json json
  | JUnary unary_operator json
  | JGroup nat json
  | JIdentifier string
  | JConstant bool

subsection \<open>Operator precedence\<close>

text \<open>
  \<^verbatim>\<open>%left 'AND'\<close>, \<^verbatim>\<open>%left 'OR'\<close>, \<^verbatim>\<open>%left 'XOR'\<close>, \<^verbatim>\<open>%left 'NOT'\<close>, in this
  order: jison numbers the declarations from 1, a later line is a higher precedence,
  and a token that no line names has precedence 0. A rule has the precedence of the
  operator token in it.
\<close>

fun precedence :: "token \<Rightarrow> nat" where
  "precedence AND = 1"
| "precedence OR = 2"
| "precedence XOR = 3"
| "precedence NOT = 4"
| "precedence _ = 0"

fun binary_of :: "token \<Rightarrow> binary_operator option" where
  "binary_of AND = Some OpAND"
| "binary_of OR = Some OpOR"
| "binary_of XOR = Some OpXOR"
| "binary_of _ = None"

text \<open>The tokens that can follow an \<^verbatim>\<open>e\<close>, and those that can start one.\<close>

fun follows_e :: "token \<Rightarrow> bool" where
  "follows_e AND = True"
| "follows_e OR = True"
| "follows_e XOR = True"
| "follows_e RPAREN = True"
| "follows_e COMMA = True"
| "follows_e EOF = True"
| "follows_e _ = False"

fun starts_e :: "token \<Rightarrow> bool" where
  "starts_e NOT = True"
| "starts_e LPAREN = True"
| "starts_e (IDENTIFIER _) = True"
| "starts_e TRUE = True"
| "starts_e FALSE = True"
| "starts_e _ = False"

subsection \<open>The shift-reduce parser\<close>

text \<open>
  The parser's stack holds grammar symbols, the top first: tokens, \<^verbatim>\<open>e\<close> with its
  value and \<^verbatim>\<open>expressionList\<close> with its value.
\<close>

datatype symbol = Tok token | E json | EList "json list"

datatype decision = Shift | Reduce "symbol list" | Error

text \<open>
  With \<^verbatim>\<open>e op e\<close> on the stack and the token \<open>t\<close> ahead, the generated table
  has a shift-reduce conflict when \<open>t\<close> is a binary operator. jison settles it from
  the precedences: it shifts when the rule's precedence is below the token's, and
  reduces when it is above, or equal (the token is \<^verbatim>\<open>%left\<close>).
\<close>

definition after_binary ::
    "token \<Rightarrow> json \<Rightarrow> json \<Rightarrow> symbol list \<Rightarrow> token \<Rightarrow> decision" where
  "after_binary o' l r st t =
     (case binary_of o' of
        None \<Rightarrow> Error
      | Some op \<Rightarrow>
          if binary_of t \<noteq> None \<and> precedence o' < precedence t then Shift
          else if follows_e t then Reduce (E (JBinary op l r) # st)
          else Error)"

text \<open>
  The action for a stack and the token ahead. A token \<^verbatim>\<open>IDENTIFIER\<close>,
  \<^verbatim>\<open>TRUE\<close>, \<^verbatim>\<open>FALSE\<close> or a closing parenthesis on top is reduced at once;
  \<^verbatim>\<open>NOT e\<close> is reduced before any operator that follows, since the rule has the
  highest precedence; an \<^verbatim>\<open>e\<close> that is a whole list entry becomes (part of) an
  \<^verbatim>\<open>expressionList\<close> when a comma or the end follows.
\<close>

fun action :: "symbol list \<Rightarrow> token \<Rightarrow> decision" where
  "action (Tok (IDENTIFIER n) # st) t = Reduce (E (JIdentifier n) # st)"
| "action (Tok TRUE # st) t = Reduce (E (JConstant True) # st)"
| "action (Tok FALSE # st) t = Reduce (E (JConstant False) # st)"
| "action (Tok RPAREN # E c # Tok LPAREN # st) t = Reduce (E (JGroup 1 c) # st)"
| "action (Tok RPAREN # st) t = Error"
| "action (E r # Tok NOT # st) t =
     (if follows_e t then Reduce (E (JUnary OpNOT r) # st) else Error)"
| "action (E c # Tok LPAREN # st) t =
     (if binary_of t \<noteq> None \<or> t = RPAREN then Shift else Error)"
| "action (E r # Tok COMMA # EList l # st) t =
     (if binary_of t \<noteq> None then Shift
      else if t = COMMA \<or> t = EOF then Reduce (EList (l @ [r]) # st)
      else Error)"
| "action (E r # Tok o' # E l # st) t = after_binary o' l r st t"
| "action [E r] t =
     (if binary_of t \<noteq> None then Shift
      else if t = COMMA \<or> t = EOF then Reduce [EList [r]]
      else Error)"
| "action (E r # st) t = Error"
| "action (EList l # st) t = (if t = COMMA \<or> t = EOF then Shift else Error)"
| "action [] t = (if starts_e t \<or> t = EOF then Shift else Error)"
| "action (Tok _ # st) t = (if starts_e t then Shift else Error)"

text \<open>
  The rules for \<^verbatim>\<open>expressions\<close> return from the parser as soon as
  \<^verbatim>\<open>EOF\<close> is on the stack: \<^verbatim>\<open>expressionList EOF\<close> returns the list, a lone
  \<^verbatim>\<open>EOF\<close> returns \<^verbatim>\<open>[]\<close>.
\<close>

fun accept :: "symbol list \<Rightarrow> json list option" where
  "accept [] = Some []"
| "accept [EList l] = Some l"
| "accept _ = None"

fun weight :: "symbol \<Rightarrow> nat" where
  "weight (Tok _) = 3"
| "weight (E _) = 2"
| "weight (EList _) = 1"

lemma action_Reduce_weight:
  "action st t = Reduce st' \<Longrightarrow> sum_list (map weight st') < sum_list (map weight st)"
  by (induction st t rule: action.induct)
     (auto simp: after_binary_def split: if_splits option.splits)

function (sequential) run :: "symbol list \<Rightarrow> token list \<Rightarrow> json list option" where
  "run (Tok EOF # st) ts = accept st"
| "run st [] = None"
| "run st (t # ts) =
     (case action st t of
        Shift \<Rightarrow> run (Tok t # st) ts
      | Reduce st' \<Rightarrow> run st' (t # ts)
      | Error \<Rightarrow> None)"
  by pat_completeness auto
termination
  by (relation "measure (\<lambda>(st, ts). sum_list (map weight st) + 4 * length ts)")
     (auto dest!: action_Reduce_weight simp del: action.simps)

text \<open>The parser on a text: \<open>None\<close> is a lexical or a syntax error.\<close>

definition parser_parse :: "string \<Rightarrow> json list option" where
  "parser_parse s = (case lexer s of None \<Rightarrow> None | Some ts \<Rightarrow> run [] ts)"

section \<open>Expressions\<close>

text \<open>
  Modelled from the spec: the canonical expression tree built by
  \<^verbatim>\<open>expressionFromJson\<close> of \<^verbatim>\<open>lib/expression\<close>, a module that is not among the
  sources. The spec's variants are \<^verbatim>\<open>BinaryOp\<close>, \<^verbatim>\<open>UnaryOp\<close>, \<^verbatim>\<open>Group\<close>,
  \<^verbatim>\<open>Identifier\<close> and \<^verbatim>\<open>Constant\<close>, compared by structure. \<open>node\<close> is the tag
  that \<^verbatim>\<open>analyze\<close> reads.
\<close>

datatype expression =
  Binary binary_operator expression expression
  | Unary unary_operator expression
  | Group expression
  | Identifier string
  | Constant bool

fun node :: "expression \<Rightarrow> string" where
  "node (Binary _ _ _) = ''binary''"
| "node (Unary _ _) = ''unary''"
| "node (Group _) = ''group''"
| "node (Identifier _) = ''identifier''"
| "node (Constant _) = ''constant''"

text \<open>
  The elements of a list, each once, in the order of their first occurrence: what is
  left of a sequence when every element is recorded the first time it is seen.
\<close>

definition seen :: "'a list \<Rightarrow> 'a \<Rightarrow> 'a list" where
  "seen acc x = (if x \<in> set acc then acc else acc @ [x])"

definition first_seen :: "'a list \<Rightarrow> 'a list" where
  "first_seen xs = foldl seen [] xs"

text \<open>
  Modelled from the spec: \<^verbatim>\<open>collectIdentifiers\<close> of \<^verbatim>\<open>lib/expression\<close>, which is
  not among the sources. The spec has the identifiers found by a depth-first pre-order
  traversal, left to right, each name recorded the first time it is seen.
\<close>

fun identifierNames :: "expression \<Rightarrow> string list" where
  "identifierNames (Binary _ l r) = identifierNames l @ identifierNames r"
| "identifierNames (Unary _ e) = identifierNames e"
| "identifierNames (Group e) = identifierNames e"
| "identifierNames (Identifier n) = [n]"
| "identifierNames (Constant _) = []"

definition collectIdentifiers :: "expression \<Rightarrow> string list" where
  "collectIdentifiers e = first_seen (identifierNames e)"

text \<open>
  Modelled from the spec: \<^verbatim>\<open>collectSubExpressions\<close> of \<^verbatim>\<open>lib/expression\<close>, which
  is not among the sources. The spec has every node of the subtree, the root included,
  duplicates by structural equality collapsed, in the traversal order of the first
  occurrence.
\<close>

fun subtree :: "expression \<Rightarrow> expression list" where
  "subtree (Binary b l r) = Binary b l r # subtree l @ subtree r"
| "subtree (Unary u e) = Unary u e # subtree e"
| "subtree (Group e) = Group e # subtree e"
| "subtree (Identifier n) = [Identifier n]"
| "subtree (Constant v) = [Constant v]"

definition collectSubExpressions :: "expression \<Rightarrow> expression list" where
  "collectSubExpressions e = first_seen (subtree e)"

text \<open>
  Modelled from the spec: \<^verbatim>\<open>evaluateExpression\<close> of \<^verbatim>\<open>lib/expression\<close>, which is
  not among the sources. The model of the program below takes its evaluator as a
  parameter; this one serves where a concrete evaluator is wanted. A name that the
  assignment lacks, which the spec rules out, reads as false.
\<close>

fun evaluateExpression :: "expression \<Rightarrow> (string \<rightharpoonup> bool) \<Rightarrow> bool" where
  "evaluateExpression (Constant v) m = v"
| "evaluateExpression (Identifier n) m = (case m n of Some v \<Rightarrow> v | None \<Rightarrow> False)"
| "evaluateExpression (Group e) m = evaluateExpression e m"
| "evaluateExpression (Unary OpNOT e) m = (\<not> evaluateExpression e m)"
| "evaluateExpression (Binary OpAND l r) m = (evaluateExpression l m \<and> evaluateExpression r m)"
| "evaluateExpression (Binary OpOR l r) m = (evaluateExpression l m \<or> evaluateExpression r m)"
| "evaluateExpression (Binary OpXOR l r) m = (evaluateExpression l m \<noteq> evaluateExpression r m)"

section \<open>Sets of the collection library\<close>

text \<open>
  \<^verbatim>\<open>analyze\<close> removes duplicate names with \<^verbatim>\<open>.toSet().toList()\<close> of Immutable.js, a
  dependency of the program. Its \<^verbatim>\<open>Set\<close> is a hash map of its elements: while it
  has at most 8 entries they sit in an array, in insertion order
  (\<^verbatim>\<open>ArrayMapNode\<close>, \<^verbatim>\<open>MAX_ARRAY_MAP_SIZE = 8\<close>). Adding a 9th key turns the array into a
  hash trie (\<^verbatim>\<open>createNodes\<close>: the new key goes in first, then the 8 old ones), and
  from then on the iteration follows the trie: the entries are ordered by the 5-bit
  fragments of their hashes, lowest fragment first, entries of equal hash staying in the
  order they were put in.
\<close>

text \<open>
  The hash of a string, in 32-bit arithmetic:
  \<^verbatim>\<open>hash = 31 * hash + charCode | 0\<close> for each character, then \<^verbatim>\<open>smi\<close>, which copies
  bit 31 over bit 30.
\<close>

definition smi :: "nat \<Rightarrow> nat" where
  "smi i32 = (i32 div 2 ^ 31) * 2 ^ 31 + (i32 div 2 ^ 31) * 2 ^ 30 + i32 mod 2 ^ 30"

definition hashString :: "string \<Rightarrow> nat" where
  "hashString s = smi (foldl (\<lambda>h ch. (31 * h + of_char ch) mod 2 ^ 32) 0 s)"

text \<open>
  The place of a hash in the trie: its fragments \<^verbatim>\<open>(hash >>> shift) & 31\<close> for the
  shifts 0, 5, ..., 30, read as the digits of one number, the fragment of shift 0 first.
\<close>

definition trieOrder :: "nat \<Rightarrow> nat" where
  "trieOrder h =
     foldl (\<lambda>k shift. 32 * k + (h div 2 ^ shift) mod 32) 0 [0, 5, 10, 15, 20, 25, 30]"

datatype string_set = ArrayMapNode "string list" | HashTrie "string list"

fun add :: "string_set \<Rightarrow> string \<Rightarrow> string_set" where
  "add (ArrayMapNode entries) k =
     (if k \<in> set entries then ArrayMapNode entries
      else if length entries \<ge> 8 then HashTrie (k # entries)
      else ArrayMapNode (entries @ [k]))"
| "add (HashTrie entries) k =
     (if k \<in> set entries then HashTrie entries else HashTrie (entries @ [k]))"

definition toSet :: "string list \<Rightarrow> string_set" where
  "toSet xs = foldl add (ArrayMapNode []) xs"

fun toList :: "string_set \<Rightarrow> string list" where
  "toList (ArrayMapNode entries) = entries"
| "toList (HashTrie entries) = sort_key (\<lambda>k. trieOrder (hashString k)) entries"

section \<open>The languages\<close>

text \<open>
  The four concrete grammars are PEG grammars compiled to parsers; the grammar files
  are not among the sources, so the four parsers are parameters here. A parser returns
  the list of parse trees, of a type \<open>'j\<close> left open, or throws a syntax error with a
  message and a location; the program reads \<^verbatim>\<open>location.start.offset\<close>.
\<close>

record position =
  offset :: nat
  line :: nat
  column :: nat

record location =
  start :: position
  finish :: position

record SyntaxError =
  message :: string
  location :: location

text \<open>\<^verbatim>\<open>e.location.start.offset\<close>.\<close>

definition start_offset :: "SyntaxError \<Rightarrow> nat" where
  "start_offset e = offset (start (SyntaxError.location e))"

record 'j parsers =
  cParser :: "string \<Rightarrow> SyntaxError + 'j list"
  latexParser :: "string \<Rightarrow> SyntaxError + 'j list"
  mathParser :: "string \<Rightarrow> SyntaxError + 'j list"
  pythonParser :: "string \<Rightarrow> SyntaxError + 'j list"

text \<open>The keys of \<^verbatim>\<open>languages\<close>.\<close>

datatype lang = auto | c | latex | math | python

text \<open>
  \<^verbatim>\<open>ParseError\<close>. Its location is that of the error it was made from, which only
  a syntax error has.
\<close>

record ParseError =
  lang :: lang
  string :: string
  message :: string
  location :: "location option"
  detected :: "string option"

text \<open>
  What a call of \<^verbatim>\<open>parse\<close> of a language can throw: the syntax error of a grammar,
  the \<^verbatim>\<open>ParseError\<close> of the automatic detection, or the engine's own error when
  \<^verbatim>\<open>error.message\<close> is read while \<^verbatim>\<open>error\<close> is still \<^verbatim>\<open>null\<close>.
\<close>

datatype thrown =
  Thrown_SyntaxError SyntaxError
  | Thrown_ParseError ParseError
  | Thrown_TypeError string

text \<open>What a language's \<^verbatim>\<open>parse\<close> returns.\<close>

record 'j parseResult =
  lang :: lang
  parsed :: "'j list"
  detected :: "string option"

record 'j language =
  name :: string
  parse :: "string \<Rightarrow> SyntaxError + 'j parseResult"

definition cLang :: "'j parsers \<Rightarrow> 'j language" where
  "cLang ps =
     \<lparr>name = ''C'',
      parse = (\<lambda>s. case cParser ps s of
                 Inl e \<Rightarrow> Inl e
               | Inr p \<Rightarrow> Inr \<lparr>parseResult.lang = c, parsed = p, detected = None\<rparr>)\<rparr>"

definition latexLang :: "'j parsers \<Rightarrow> 'j language" where
  "latexLang ps =
     \<lparr>name = ''Latex'',
      parse = (\<lambda>s. case latexParser ps s of
                 Inl e \<Rightarrow> Inl e
               | Inr p \<Rightarrow> Inr \<lparr>parseResult.lang = latex, parsed = p, detected = None\<rparr>)\<rparr>"

definition pythonLang :: "'j parsers \<Rightarrow> 'j language" where
  "pythonLang ps =
     \<lparr>name = ''Python'',
      parse = (\<lambda>s. case pythonParser ps s of
                 Inl e \<Rightarrow> Inl e
               | Inr p \<Rightarrow> Inr \<lparr>parseResult.lang = python, parsed = p, detected = None\<rparr>)\<rparr>"

definition mathLang :: "'j parsers \<Rightarrow> 'j language" where
  "mathLang ps =
     \<lparr>name = ''Math'',
      parse = (\<lambda>s. case mathParser ps s of
                 Inl e \<Rightarrow> Inl e
               | Inr p \<Rightarrow> Inr \<lparr>parseResult.lang = math, parsed = p, detected = None\<rparr>)\<rparr>"

definition allLanguages :: "'j parsers \<Rightarrow> 'j language list" where
  "allLanguages ps = [cLang ps, pythonLang ps, latexLang ps, mathLang ps]"

text \<open>
  The loop of \<^verbatim>\<open>autoLang.parse\<close> over the languages that are left, with its two
  variables \<^verbatim>\<open>error\<close> and \<^verbatim>\<open>detected\<close> (\<open>err\<close> and \<open>det\<close>). The first language that parses returns
  from the loop. A failure replaces the remembered one only when none is remembered or
  when its offset is greater.
\<close>

fun autoLang_loop ::
    "'j language list \<Rightarrow> string \<Rightarrow> SyntaxError option \<Rightarrow> string option
      \<Rightarrow> thrown + 'j parseResult" where
  "autoLang_loop [] s err det =
     (case err of
        None \<Rightarrow> Inl (Thrown_TypeError ''Cannot read property message of null'')
      | Some e \<Rightarrow>
          Inl (Thrown_ParseError
            \<lparr>ParseError.lang = auto, string = s, message = SyntaxError.message e,
             location = Some (SyntaxError.location e), detected = det\<rparr>))"
| "autoLang_loop (l # ls) s err det =
     (case parse l s of
        Inr result \<Rightarrow>
          Inr \<lparr>parseResult.lang = auto, parsed = parsed result, detected = Some (name l)\<rparr>
      | Inl e \<Rightarrow>
          (case err of
             None \<Rightarrow> autoLang_loop ls s (Some e) (Some (name l))
           | Some e' \<Rightarrow>
               if start_offset e > start_offset e'
               then autoLang_loop ls s (Some e) (Some (name l))
               else autoLang_loop ls s err det))"

definition autoLang_parse :: "'j parsers \<Rightarrow> string \<Rightarrow> thrown + 'j parseResult" where
  "autoLang_parse ps s = autoLang_loop (allLanguages ps) s None None"

text \<open>\<^verbatim>\<open>languages[lang].parse(string)\<close>.\<close>

definition concrete :: "'j language \<Rightarrow> string \<Rightarrow> thrown + 'j parseResult" where
  "concrete l s = (case parse l s of Inl e \<Rightarrow> Inl (Thrown_SyntaxError e) | Inr r \<Rightarrow> Inr r)"

fun languages :: "'j parsers \<Rightarrow> lang \<Rightarrow> string \<Rightarrow> thrown + 'j parseResult" where
  "languages ps auto = autoLang_parse ps"
| "languages ps c = concrete (cLang ps)"
| "languages ps latex = concrete (latexLang ps)"
| "languages ps math = concrete (mathLang ps)"
| "languages ps python = concrete (pythonLang ps)"

text \<open>
  The fields that the handler of \<^verbatim>\<open>parse\<close> reads from what it caught:
  \<^verbatim>\<open>e.message\<close>, \<^verbatim>\<open>e.location\<close> and \<^verbatim>\<open>e.detected\<close>; a field that the object lacks
  is \<open>None\<close>.
\<close>

fun thrown_message :: "thrown \<Rightarrow> string" where
  "thrown_message (Thrown_SyntaxError e) = SyntaxError.message e"
| "thrown_message (Thrown_ParseError e) = ParseError.message e"
| "thrown_message (Thrown_TypeError m) = m"

fun thrown_location :: "thrown \<Rightarrow> location option" where
  "thrown_location (Thrown_SyntaxError e) = Some (SyntaxError.location e)"
| "thrown_location (Thrown_ParseError e) = ParseError.location e"
| "thrown_location (Thrown_TypeError m) = None"

fun thrown_detected :: "thrown \<Rightarrow> string option" where
  "thrown_detected (Thrown_SyntaxError e) = None"
| "thrown_detected (Thrown_ParseError e) = ParseError.detected e"
| "thrown_detected (Thrown_TypeError m) = None"

section \<open>Parsing and analysis\<close>

text \<open>
  The objects that flow through the pipeline of the model: the input
  \<^verbatim>\<open>{string, lang, detected: null, showSubExpressions}\<close>, the results of \<^verbatim>\<open>parse\<close>
  and of \<^verbatim>\<open>analyze\<close>, and the object of \<^verbatim>\<open>handleError\<close>. They are one record here;
  a field that an object does not have is \<open>None\<close>.
\<close>

record error_object =
  location :: "location option"
  message :: string

record document =
  lang :: lang
  detected :: "string option"
  string :: string
  showSubExpressions :: "bool option"
  expressions :: "expression list option"
  identifiers :: "string list option"
  subExpressions :: "expression list option"
  toplevelExpressions :: "expression list option"
  error :: "error_object option"

text \<open>
  \<^verbatim>\<open>parse\<close>: the chosen language parses the text and \<^verbatim>\<open>expressionFromJson\<close>
  (the parameter \<open>fromJson\<close>: \<^verbatim>\<open>lib/expression\<close> is not among the sources) turns every
  parse tree into an expression. Whatever is thrown becomes a \<^verbatim>\<open>ParseError\<close> with the
  language that was asked for.
\<close>

definition parse ::
    "'j parsers \<Rightarrow> ('j \<Rightarrow> expression) \<Rightarrow> document \<Rightarrow> ParseError + document" where
  "parse ps fromJson d =
     (case languages ps (lang d) (string d) of
        Inr parseResult \<Rightarrow>
          Inr \<lparr>lang = parseResult.lang parseResult,
               detected = parseResult.detected parseResult,
               string = string d,
               showSubExpressions = showSubExpressions d,
               expressions = Some (map fromJson (parsed parseResult)),
               identifiers = None, subExpressions = None, toplevelExpressions = None,
               error = None\<rparr>
      | Inl e \<Rightarrow>
          Inl \<lparr>ParseError.lang = lang d, string = string d,
               message = thrown_message e, location = thrown_location e,
               detected = thrown_detected e\<rparr>)"

text \<open>
  \<^verbatim>\<open>analyze\<close>. \<^verbatim>\<open>I.List(expressions)\<close> of a missing field is the empty list;
  \<^verbatim>\<open>flatMap\<close> concatenates what the function returns for each expression.
\<close>

definition analyze :: "document \<Rightarrow> document" where
  "analyze d =
     (let expressionList = (case expressions d of None \<Rightarrow> [] | Some es \<Rightarrow> es) in
      \<lparr>lang = lang d,
       detected = detected d,
       string = string d,
       showSubExpressions = showSubExpressions d,
       expressions = Some expressionList,
       identifiers = Some (toList (toSet (concat (map collectIdentifiers expressionList)))),
       subExpressions = Some (concat (map collectSubExpressions expressionList)),
       toplevelExpressions =
         Some (filter (\<lambda>e. node e \<noteq> ''identifier'' \<and> node e \<noteq> ''constant'') expressionList),
       error = None\<rparr>)"

definition handleError :: "ParseError \<Rightarrow> document" where
  "handleError e =
     \<lparr>lang = ParseError.lang e,
      detected = ParseError.detected e,
      string = ParseError.string e,
      showSubExpressions = None,
      expressions = None, identifiers = None, subExpressions = None,
      toplevelExpressions = None,
      error = Some \<lparr>location = ParseError.location e, message = ParseError.message e\<rparr>\<rparr>"

text \<open>The input object of the pipeline.\<close>

definition input :: "string \<Rightarrow> lang \<Rightarrow> bool \<Rightarrow> document" where
  "input s l b =
     \<lparr>lang = l, detected = None, string = s, showSubExpressions = Some b,
      expressions = None, identifiers = None, subExpressions = None,
      toplevelExpressions = None, error = None\<rparr>"

text \<open>
  \<^verbatim>\<open>O.just(...).map(parse).map(analyze).catch(handleError)\<close>: the one document that
  the inner stream carries for a text, a language and a flag.
\<close>

definition parsed_document ::
    "'j parsers \<Rightarrow> ('j \<Rightarrow> expression) \<Rightarrow> string \<Rightarrow> lang \<Rightarrow> bool \<Rightarrow> document" where
  "parsed_document ps fromJson s l b =
     (case parse ps fromJson (input s l b) of
        Inr d \<Rightarrow> analyze d
      | Inl e \<Rightarrow> handleError e)"

section \<open>Row selection and evaluation\<close>

text \<open>
  \<^verbatim>\<open>.scan((prev, val) => prev === val ? null : val)\<close> over the selected rows, started
  with \<^verbatim>\<open>null\<close>.
\<close>

definition toggle :: "int option \<Rightarrow> int \<Rightarrow> int option" where
  "toggle prev val = (if prev = Some val then None else Some val)"

text \<open>
  \<^verbatim>\<open>!!(Math.pow(2, i) & selectedRow)\<close>: the operator \<^verbatim>\<open>&\<close> works on its operands
  converted to 32-bit integers.
\<close>

definition rowBit :: "nat \<Rightarrow> int \<Rightarrow> bool" where
  "rowBit i r = (and (word_of_int (2 ^ i) :: 32 word) (word_of_int r) \<noteq> 0)"

text \<open>\<^verbatim>\<open>I.Map\<close> of a list of pairs: a later pair replaces an earlier one of the same key.\<close>

definition Map_of :: "('k \<times> 'v) list \<Rightarrow> ('k \<rightharpoonup> 'v)" where
  "Map_of kvs = foldl (\<lambda>m (k, v). m(k \<mapsto> v)) Map.empty kvs"

definition identifierMap :: "string list \<Rightarrow> int \<Rightarrow> (string \<rightharpoonup> bool)" where
  "identifierMap ids r = Map_of (map (\<lambda>(i, n). (n, rowBit i r)) (enumerate 0 ids))"

text \<open>
  The evaluation: a map whose keys are expressions (\<open>Inl\<close>) and names (\<open>Inr\<close>);
  \<^verbatim>\<open>merge\<close> lets the entries of the assignment win. The evaluator \<open>ev\<close> is
  \<^verbatim>\<open>evaluateExpression\<close>, a parameter.
\<close>

definition subEvalutation_of ::
    "(expression \<Rightarrow> (string \<rightharpoonup> bool) \<Rightarrow> bool) \<Rightarrow> string list \<Rightarrow> expression list \<Rightarrow> int
      \<Rightarrow> (expression + string \<rightharpoonup> bool)" where
  "subEvalutation_of ev ids tops r =
     (let m = identifierMap ids r in
      Map_of (map (\<lambda>e. (Inl e, ev e m)) tops)
        ++ (\<lambda>k. case k of Inl e \<Rightarrow> None | Inr n \<Rightarrow> m n))"

record state = document +
  selectedRow :: "int option"
  subEvalutation :: "(expression + string \<rightharpoonup> bool) option"
  table :: "unit list"

text \<open>
  The state that the model emits for a document and a selected row. \<^verbatim>\<open>lang\<close>,
  \<^verbatim>\<open>string\<close> and \<^verbatim>\<open>showSubExpressions\<close> are those of the input. With a row
  selected, \<^verbatim>\<open>identifiers.map\<close> throws when the document is that of
  \<^verbatim>\<open>handleError\<close>, which has no identifiers: the stream ends (\<open>None\<close>).
\<close>

definition state_of ::
    "(expression \<Rightarrow> (string \<rightharpoonup> bool) \<Rightarrow> bool) \<Rightarrow> string \<Rightarrow> lang \<Rightarrow> bool \<Rightarrow> document
      \<Rightarrow> int option \<Rightarrow> state option" where
  "state_of ev s l b d sel =
     (let st = \<lparr>lang = l, detected = detected d, string = s,
                showSubExpressions = Some b,
                expressions = expressions d, identifiers = identifiers d,
                subExpressions = subExpressions d,
                toplevelExpressions = toplevelExpressions d,
                error = error d,
                selectedRow = sel, subEvalutation = None, table = []\<rparr> in
      case sel of
        None \<Rightarrow> Some st
      | Some r \<Rightarrow>
          (case identifiers d of
             None \<Rightarrow> None
           | Some ids \<Rightarrow>
               (case toplevelExpressions d of
                  None \<Rightarrow> None
                | Some tops \<Rightarrow>
                    Some (st\<lparr>subEvalutation := Some (subEvalutation_of ev ids tops r)\<rparr>))))"

section \<open>The model\<close>

text \<open>
  The model is a stream: \<^verbatim>\<open>combineLatest\<close> of the text, the language and the flag,
  each started with its default, mapped to an inner stream and flattened by
  \<^verbatim>\<open>switch\<close>. Every new text, language or flag makes a new inner stream and drops the
  one before; an inner stream first emits its document with \<^verbatim>\<open>null\<close> as the selected
  row (\<^verbatim>\<open>startWith(null)\<close>), then one state per selected row. As a machine: the
  latest text, language and flag and the row of the running inner stream, or
  \<open>Stopped\<close> once a stream has thrown.
\<close>

datatype event =
  Input string | Language lang | ShowSubExpressions bool | SelectRow int

datatype machine = Running string lang bool "int option" | Stopped

definition initial :: machine where
  "initial = Running [] auto True None"

fun step ::
    "'j parsers \<Rightarrow> ('j \<Rightarrow> expression) \<Rightarrow> (expression \<Rightarrow> (string \<rightharpoonup> bool) \<Rightarrow> bool)
      \<Rightarrow> machine \<Rightarrow> event \<Rightarrow> machine \<times> state option" where
  "step ps fromJson ev Stopped e = (Stopped, None)"
| "step ps fromJson ev (Running s l b sel) (Input s') =
     (Running s' l b None, state_of ev s' l b (parsed_document ps fromJson s' l b) None)"
| "step ps fromJson ev (Running s l b sel) (Language l') =
     (Running s l' b None, state_of ev s l' b (parsed_document ps fromJson s l' b) None)"
| "step ps fromJson ev (Running s l b sel) (ShowSubExpressions b') =
     (Running s l b' None, state_of ev s l b' (parsed_document ps fromJson s l b') None)"
| "step ps fromJson ev (Running s l b sel) (SelectRow r) =
     (case state_of ev s l b (parsed_document ps fromJson s l b) (toggle sel r) of
        None \<Rightarrow> (Stopped, None)
      | Some st \<Rightarrow> (Running s l b (toggle sel r), Some st))"

text \<open>The states emitted for a sequence of events, after the first state.\<close>

fun run_model ::
    "'j parsers \<Rightarrow> ('j \<Rightarrow> expression) \<Rightarrow> (expression \<Rightarrow> (string \<rightharpoonup> bool) \<Rightarrow> bool)
      \<Rightarrow> machine \<Rightarrow> event list \<Rightarrow> state option list" where
  "run_model ps fromJson ev m [] = []"
| "run_model ps fromJson ev m (e # es) =
     (case step ps fromJson ev m e of (m', out) \<Rightarrow> out # run_model ps fromJson ev m' es)"

text \<open>
  All the states of the model: the state of the first inner stream, for the empty text,
  \<^verbatim>\<open>auto\<close> and \<^verbatim>\<open>true\<close>, and the states for the events.
\<close>

definition model ::
    "'j parsers \<Rightarrow> ('j \<Rightarrow> expression) \<Rightarrow> (expression \<Rightarrow> (string \<rightharpoonup> bool) \<Rightarrow> bool)
      \<Rightarrow> event list \<Rightarrow> state option list" where
  "model ps fromJson ev es =
     state_of ev [] auto True (parsed_document ps fromJson [] auto True) None
       # run_model ps fromJson ev initial es"

text \<open>The token of a binary operator.\<close>

fun token_of :: "binary_operator \<Rightarrow> token" where
  "token_of OpAND = AND"
| "token_of OpOR = OR"
| "token_of OpXOR = XOR"

section \<open>The grammars of the notations\<close>

text \<open>
  Modelled from the spec: the parsers of the four notations
  (\<^verbatim>\<open>lib/syntax/logic-c.pegjs\<close>, \<^verbatim>\<open>logic-latex.pegjs\<close>, \<^verbatim>\<open>logic-math.pegjs\<close>,
  \<^verbatim>\<open>logic-python.pegjs\<close>), which are not among the sources. The spec has, for every
  notation: white space is skipped; the tokens are the notation's equivalents of true,
  false, AND, OR, XOR, NOT, the parentheses and the comma that separates the
  expressions of a text; OR and XOR have the same precedence and bind looser than AND,
  the binary operators are left-associative, NOT is a prefix operator that binds
  tightest, and parentheses override the precedences; the empty text is the empty list
  of expressions; a failure has a message and the location of the first token that
  could not be consumed. The spellings of the tokens are not in the spec: the table of
  a notation is a parameter, a function that reads the token at the head of a text
  without leading white space and returns it with the rest of the text.
\<close>

type_synonym tokenizer = "string \<Rightarrow> (token \<times> string) option"

text \<open>
  The tokens of a text with their offsets, and the offset of the first piece of text
  that is no token, if there is one. \<open>pos\<close> is the offset of the text \<open>s\<close>.
\<close>

function scan :: "tokenizer \<Rightarrow> nat \<Rightarrow> string \<Rightarrow> (token \<times> nat) list \<times> nat option" where
  "scan rules pos s =
     (if dropWhile is_space s = [] then ([], None)
      else
        (case rules (dropWhile is_space s) of
           None \<Rightarrow> ([], Some (pos + length (takeWhile is_space s)))
         | Some (t, rest) \<Rightarrow>
             if length rest < length (dropWhile is_space s) then
               (case scan rules (pos + (length s - length rest)) rest of
                  (ts, bad) \<Rightarrow> ((t, pos + length (takeWhile is_space s)) # ts, bad))
             else ([], Some (pos + length (takeWhile is_space s)))))"
  by pat_completeness auto
termination
proof (relation "measure (\<lambda>(rules, pos, s). length s)")
  fix rules :: tokenizer and pos :: nat and s :: string and t :: token and rest :: string
  assume "length rest < length (dropWhile is_space s)"
  moreover have "length (dropWhile is_space s) \<le> length s"
    by (rule length_dropWhile_le)
  ultimately show "((rules, pos + (length s - length rest), rest), (rules, pos, s))
      \<in> measure (\<lambda>(rules, pos, s). length s)"
    by simp
qed simp

declare scan.simps [simp del]

text \<open>The precedence levels of the binary operators.\<close>

fun level :: "binary_operator \<Rightarrow> nat" where
  "level OpOR = 1"
| "level OpXOR = 1"
| "level OpAND = 2"

text \<open>
  The parser keeps a stack, the top first, of tokens, expressions and the list of the
  expressions that are complete. \<open>next_move\<close> is what it does for a stack and the
  token ahead (\<open>None\<close> at the end of the text): it takes the token, or it folds the
  top of the stack into an expression, or it stops at the token. An operand is folded
  into \<^verbatim>\<open>NOT\<close> at once. With \<open>l op r\<close> on the stack, a binary operator of a
  higher level than \<open>op\<close> is taken, so that it gets \<open>r\<close>; before any other token
  \<open>l op r\<close> is folded, which makes operators of one level group to the left.
\<close>

datatype item = Tk token | Ex expression | Exs "expression list"

datatype move = Push | Fold "item list" | Reject

fun ahead_level :: "token option \<Rightarrow> nat" where
  "ahead_level (Some t) = (case binary_of t of Some b \<Rightarrow> level b | None \<Rightarrow> 0)"
| "ahead_level None = 0"

fun next_move :: "item list \<Rightarrow> token option \<Rightarrow> move" where
  "next_move (Tk (IDENTIFIER n) # st) la = Fold (Ex (Identifier n) # st)"
| "next_move (Tk TRUE # st) la = Fold (Ex (Constant True) # st)"
| "next_move (Tk FALSE # st) la = Fold (Ex (Constant False) # st)"
| "next_move (Tk RPAREN # Ex e # Tk LPAREN # st) la = Fold (Ex (Group e) # st)"
| "next_move (Tk RPAREN # st) la = Reject"
| "next_move (Ex r # Tk NOT # st) la = Fold (Ex (Unary OpNOT r) # st)"
| "next_move (Ex e # Tk LPAREN # st) la =
     (if ahead_level la > 0 \<or> la = Some RPAREN then Push else Reject)"
| "next_move (Ex r # Tk COMMA # Exs es # st) la =
     (if ahead_level la > 0 then Push
      else if la = Some COMMA \<or> la = None then Fold (Exs (es @ [r]) # st)
      else Reject)"
| "next_move (Ex r # Tk t # Ex l # st) la =
     (case binary_of t of
        None \<Rightarrow> Reject
      | Some b \<Rightarrow> if level b < ahead_level la then Push else Fold (Ex (Binary b l r) # st))"
| "next_move [Ex r] la =
     (if ahead_level la > 0 then Push
      else if la = Some COMMA \<or> la = None then Fold [Exs [r]]
      else Reject)"
| "next_move (Ex r # st) la = Reject"
| "next_move (Exs es # st) la = (if la = Some COMMA then Push else Reject)"
| "next_move (Tk t # st) la = (case la of Some t' \<Rightarrow> if starts_e t' then Push else Reject | None \<Rightarrow> Reject)"
| "next_move [] la = (case la of Some t' \<Rightarrow> if starts_e t' then Push else Reject | None \<Rightarrow> Reject)"

fun item_weight :: "item \<Rightarrow> nat" where
  "item_weight (Tk _) = 3"
| "item_weight (Ex _) = 2"
| "item_weight (Exs _) = 1"

lemma next_move_Fold_weight:
  "next_move st la = Fold st' \<Longrightarrow>
     sum_list (map item_weight st') < sum_list (map item_weight st)"
  by (induction st la rule: next_move.induct)
     (auto split: if_splits option.splits)

text \<open>
  The parser on the tokens of a text: \<open>bad\<close> is the offset of the text that is no
  token, if there is some, and \<open>n\<close> the length of the text. The result is the list
  of expressions, or the offset of the first token that could not be consumed. At the
  end of the text the empty stack is the empty list of expressions.
\<close>

function (sequential) drive ::
    "item list \<Rightarrow> (token \<times> nat) list \<Rightarrow> nat option \<Rightarrow> nat \<Rightarrow> nat + expression list" where
  "drive st [] (Some p) n = Inl p"
| "drive [] [] None n = Inr []"
| "drive [Exs es] [] None n = Inr es"
| "drive st [] None n =
     (case next_move st None of
        Fold st' \<Rightarrow> drive st' [] None n
      | Push \<Rightarrow> Inl n
      | Reject \<Rightarrow> Inl n)"
| "drive st ((t, p) # ts) bad n =
     (case next_move st (Some t) of
        Push \<Rightarrow> drive (Tk t # st) ts bad n
      | Fold st' \<Rightarrow> drive st' ((t, p) # ts) bad n
      | Reject \<Rightarrow> Inl p)"
  by pat_completeness auto
termination
  by (relation "measure (\<lambda>(st, ts, bad, n). sum_list (map item_weight st) + 4 * length ts)")
     (auto dest!: next_move_Fold_weight simp del: next_move.simps)

text \<open>The position of an offset in a text, and the failure at an offset.\<close>

definition position_at :: "string \<Rightarrow> nat \<Rightarrow> position" where
  "position_at s p =
     \<lparr>offset = p,
      line = Suc (count_list (take p s) (CHR 0x0A)),
      column = Suc (length (takeWhile (\<lambda>ch. ch \<noteq> CHR 0x0A) (rev (take p s))))\<rparr>"

definition failure_at :: "string \<Rightarrow> nat \<Rightarrow> SyntaxError" where
  "failure_at s p =
     \<lparr>SyntaxError.message = ''Syntax error'',
      location = \<lparr>start = position_at s p, finish = position_at s p\<rparr>\<rparr>"

text \<open>The parser of a notation, for the table of its tokens.\<close>

definition notation_parse :: "tokenizer \<Rightarrow> string \<Rightarrow> SyntaxError + expression list" where
  "notation_parse rules s =
     (case scan rules 0 s of
        (ts, bad) \<Rightarrow>
          (case drive [] ts bad (length s) of
             Inl p \<Rightarrow> Inl (failure_at s p)
           | Inr es \<Rightarrow> Inr es))"

text \<open>The four parsers, for the tables of C, LaTeX, Math and Python.\<close>

definition notations ::
    "tokenizer \<Rightarrow> tokenizer \<Rightarrow> tokenizer \<Rightarrow> tokenizer \<Rightarrow> expression parsers" where
  "notations rc rl rm rp =
     \<lparr>cParser = notation_parse rc, latexParser = notation_parse rl,
      mathParser = notation_parse rm, pythonParser = notation_parse rp\<rparr>"



section \<open>Stand-ins for the parameters\<close>

text \<open>
  Concrete values for the parameters of the model, to run it on examples: a parser that
  rejects every text at a given offset, the parser of the grammar of the sources in the
  place of a PEG parser (its failures are put at offset 0), and a translation of its parse trees.
\<close>

definition rejecting :: "nat \<Rightarrow> string \<Rightarrow> SyntaxError + 'j list" where
  "rejecting n s =
     Inl \<lparr>SyntaxError.message = ''Expected expression'',
          location = \<lparr>start = \<lparr>offset = n, line = 1, column = n + 1\<rparr>,
                      finish = \<lparr>offset = n + 1, line = 1, column = n + 2\<rparr>\<rparr>\<rparr>"

definition grammar :: "string \<Rightarrow> SyntaxError + json list" where
  "grammar s = (case parser_parse s of Some p \<Rightarrow> Inr p | None \<Rightarrow> rejecting 0 s)"

text \<open>
  Modelled from the spec: \<^verbatim>\<open>expressionFromJson\<close> of \<^verbatim>\<open>lib/expression\<close>, which is
  not among the sources. The spec has a structural mapping of each parse tree to the
  canonical variants, every grouping kept as a \<^verbatim>\<open>Group\<close>.
\<close>

fun expressionFromJson :: "json \<Rightarrow> expression" where
  "expressionFromJson (JBinary b l r) = Binary b (expressionFromJson l) (expressionFromJson r)"
| "expressionFromJson (JUnary u e) = Unary u (expressionFromJson e)"
| "expressionFromJson (JGroup n e) = Group (expressionFromJson e)"
| "expressionFromJson (JIdentifier n) = Identifier n"
| "expressionFromJson (JConstant v) = Constant v"

text \<open>
  The grammar of the sources for Python, and three parsers that fail at the offsets given.
\<close>

definition standins :: "nat \<Rightarrow> nat \<Rightarrow> nat \<Rightarrow> json parsers" where
  "standins n1 n2 n3 =
     \<lparr>cParser = rejecting n1, latexParser = rejecting n2, mathParser = rejecting n3,
      pythonParser = grammar\<rparr>"

section \<open>Properties of the grammar of the sources\<close>

text \<open>
  The grammar of the sources, which no language of the model uses. Its \<^verbatim>\<open>%left\<close>
  lines give the three binary operators three different precedences, AND the lowest,
  then OR, then XOR, and NOT the highest.
\<close>

lemma grammar_empty_text: "lexer [] = Some [EOF] \<and> parser_parse [] = Some []"
  by (simp add: parser_parse_def lexer.simps keyword_def)

lemma grammar_or_and:
  "parser_parse ''a or b and c'' =
     Some [JBinary OpAND (JBinary OpOR (JIdentifier ''a'') (JIdentifier ''b''))
             (JIdentifier ''c'')]"
  by code_simp

lemma grammar_precedence:
  "precedence AND < precedence OR \<and> precedence OR < precedence XOR
   \<and> precedence XOR < precedence NOT
   \<and> action (E r # Tok (token_of o1) # E l # st) (token_of o2) =
       (if precedence (token_of o1) < precedence (token_of o2) then Shift
        else Reduce (E (JBinary o1 l r) # st))
   \<and> action (E r # Tok NOT # st) (token_of o2) = Reduce (E (JUnary OpNOT r) # st)
   \<and> run [] [IDENTIFIER x, token_of o1, IDENTIFIER y, token_of o2, IDENTIFIER z, EOF] =
       Some [if precedence (token_of o1) < precedence (token_of o2)
             then JBinary o1 (JIdentifier x) (JBinary o2 (JIdentifier y) (JIdentifier z))
             else JBinary o2 (JBinary o1 (JIdentifier x) (JIdentifier y)) (JIdentifier z)]"
  by (cases o1; cases o2; simp add: after_binary_def)

section \<open>Properties of the grammars of the notations\<close>

lemma scan_empty: "scan rules pos [] = ([], None)"
  by (simp add: scan.simps)

lemma notation_parse_empty: "notation_parse rules [] = Inr []"
  by (simp add: notation_parse_def scan_empty)

lemma languages_notations:
  "languages (notations rc rl rm rp) l s =
     (case l of
        auto \<Rightarrow> autoLang_parse (notations rc rl rm rp) s
      | c \<Rightarrow> concrete (cLang (notations rc rl rm rp)) s
      | latex \<Rightarrow> concrete (latexLang (notations rc rl rm rp)) s
      | math \<Rightarrow> concrete (mathLang (notations rc rl rm rp)) s
      | python \<Rightarrow> concrete (pythonLang (notations rc rl rm rp)) s)"
  by (cases l) simp_all

text \<open>
  When the four notations read a text as the same expressions, the text parses to
  these expressions in every language, \<^verbatim>\<open>auto\<close> included.
\<close>

lemma parse_notations_agree:
  assumes "notation_parse rc s = Inr es" and "notation_parse rl s = Inr es"
    and "notation_parse rm s = Inr es" and "notation_parse rp s = Inr es"
  shows "parse (notations rc rl rm rp) fromJson (input s l b) =
      Inr \<lparr>lang = l, detected = (if l = auto then Some ''C'' else None), string = s,
           showSubExpressions = Some b, expressions = Some (map fromJson es),
           identifiers = None, subExpressions = None, toplevelExpressions = None,
           error = None\<rparr>"
  using assms
  by (cases l)
     (simp_all add: parse_def input_def autoLang_parse_def allLanguages_def concrete_def
        cLang_def latexLang_def mathLang_def pythonLang_def notations_def)

text \<open>
  C9. In every notation the empty text parses, and the result is the empty list of
  expressions: this holds for the parser of a notation whatever the table of its tokens
  is, and so for \<^verbatim>\<open>parse\<close> with every language, \<^verbatim>\<open>auto\<close> included (where the
  first grammar, C, is the one detected). The grammar of the sources returns the empty
  list for the empty text as well.
\<close>

theorem C9_empty_input:
  "notation_parse rules [] = Inr []
   \<and> parse (notations rc rl rm rp) fromJson (input [] l b) =
       Inr \<lparr>lang = l, detected = (if l = auto then Some ''C'' else None), string = [],
            showSubExpressions = Some b, expressions = Some [],
            identifiers = None, subExpressions = None, toplevelExpressions = None,
            error = None\<rparr>
   \<and> parser_parse [] = Some []"
proof -
  have "parse (notations rc rl rm rp) fromJson (input [] l b) =
       Inr \<lparr>lang = l, detected = (if l = auto then Some ''C'' else None), string = [],
            showSubExpressions = Some b, expressions = Some (map fromJson []),
            identifiers = None, subExpressions = None, toplevelExpressions = None,
            error = None\<rparr>"
    by (rule parse_notations_agree) (rule notation_parse_empty)+
  moreover have "parser_parse [] = Some []"
    by (simp add: parser_parse_def lexer.simps keyword_def)
  ultimately show ?thesis
    by (simp add: notation_parse_empty)
qed




section \<open>Properties of the automatic detection\<close>

lemma autoLang_loop_first:
  assumes "i < length ls"
    and "\<forall>j<i. isl (language.parse (ls ! j) s)"
    and "language.parse (ls ! i) s = Inr r"
  shows "autoLang_loop ls s err det =
           Inr \<lparr>parseResult.lang = auto, parsed = parsed r,
                detected = Some (language.name (ls ! i))\<rparr>"
  using assms
proof (induction ls arbitrary: i err det)
  case Nil
  then show ?case by simp
next
  case (Cons l ls)
  show ?case
  proof (cases i)
    case 0
    with Cons.prems show ?thesis by simp
  next
    case (Suc k)
    with Cons.prems have k: "k < length ls" "\<forall>j<k. isl (language.parse (ls ! j) s)"
      "language.parse (ls ! k) s = Inr r"
      by auto
    from Cons.prems Suc have "isl (language.parse l s)" by auto
    then obtain e where e: "language.parse l s = Inl e" by (auto simp: isl_def)
    have "autoLang_loop ls s err' det' =
           Inr \<lparr>parseResult.lang = auto, parsed = parsed r,
                detected = Some (language.name (ls ! k))\<rparr>" for err' det'
      using Cons.IH [OF k] .
    with e Suc show ?thesis by (simp split: option.split)
  qed
qed

text \<open>
  The loop over languages that all fail, entered with a remembered failure \<open>e0\<close> of
  the language named \<open>n0\<close>: it throws the \<^verbatim>\<open>ParseError\<close> of a failure of greatest
  offset, and of the earliest such failure; \<open>e0\<close> counts as earlier than the list.
\<close>

lemma autoLang_loop_all_fail:
  assumes "\<forall>l\<in>set ls. isl (language.parse l s)"
  shows "\<exists>e n. autoLang_loop ls s (Some e0) (Some n0) =
            Inl (Thrown_ParseError
              \<lparr>ParseError.lang = auto, string = s, message = SyntaxError.message e,
               location = Some (SyntaxError.location e), detected = Some n\<rparr>)
          \<and> (\<forall>j<length ls. \<forall>e'. language.parse (ls ! j) s = Inl e' \<longrightarrow>
                start_offset e' \<le> start_offset e)
          \<and> start_offset e0 \<le> start_offset e
          \<and> (e = e0 \<and> n = n0
              \<or> (\<exists>i<length ls. language.parse (ls ! i) s = Inl e \<and> n = language.name (ls ! i)
                    \<and> start_offset e0 < start_offset e
                    \<and> (\<forall>j<i. \<forall>e'. language.parse (ls ! j) s = Inl e' \<longrightarrow>
                          start_offset e' < start_offset e)))"
  using assms
proof (induction ls arbitrary: e0 n0)
  case Nil
  then show ?case by simp
next
  case (Cons l ls)
  then have "isl (language.parse l s)" by simp
  then obtain e1 where e1: "language.parse l s = Inl e1" by (auto simp: isl_def)
  from Cons.prems have rest: "\<forall>l\<in>set ls. isl (language.parse l s)" by simp
  show ?case
  proof (cases "start_offset e1 > start_offset e0")
    case True
    from Cons.IH [OF rest, of e1 "language.name l"] obtain e n where
      IH: "autoLang_loop ls s (Some e1) (Some (language.name l)) =
            Inl (Thrown_ParseError
              \<lparr>ParseError.lang = auto, string = s, message = SyntaxError.message e,
               location = Some (SyntaxError.location e), detected = Some n\<rparr>)"
        "\<forall>j<length ls. \<forall>e'. language.parse (ls ! j) s = Inl e' \<longrightarrow>
                start_offset e' \<le> start_offset e"
        "start_offset e1 \<le> start_offset e"
        "e = e1 \<and> n = language.name l
              \<or> (\<exists>i<length ls. language.parse (ls ! i) s = Inl e \<and> n = language.name (ls ! i)
                    \<and> start_offset e1 < start_offset e
                    \<and> (\<forall>j<i. \<forall>e'. language.parse (ls ! j) s = Inl e' \<longrightarrow>
                          start_offset e' < start_offset e))"
      by blast
    from IH(4) have "\<exists>i<length (l # ls). language.parse ((l # ls) ! i) s = Inl e
                    \<and> n = language.name ((l # ls) ! i)
                    \<and> start_offset e0 < start_offset e
                    \<and> (\<forall>j<i. \<forall>e'. language.parse ((l # ls) ! j) s = Inl e' \<longrightarrow>
                          start_offset e' < start_offset e)"
    proof
      assume "e = e1 \<and> n = language.name l"
      with e1 True show ?thesis by (intro exI [of _ 0]) simp
    next
      assume "\<exists>i<length ls. language.parse (ls ! i) s = Inl e \<and> n = language.name (ls ! i)
                    \<and> start_offset e1 < start_offset e
                    \<and> (\<forall>j<i. \<forall>e'. language.parse (ls ! j) s = Inl e' \<longrightarrow>
                          start_offset e' < start_offset e)"
      then obtain i where "i < length ls" "language.parse (ls ! i) s = Inl e"
        "n = language.name (ls ! i)" "start_offset e1 < start_offset e"
        "\<forall>j<i. \<forall>e'. language.parse (ls ! j) s = Inl e' \<longrightarrow> start_offset e' < start_offset e"
        by blast
      with e1 True show ?thesis
        by (intro exI [of _ "Suc i"]) (auto simp: less_Suc_eq_0_disj)
    qed
    moreover from IH(2,3) e1
    have "\<forall>j<length (l # ls). \<forall>e'. language.parse ((l # ls) ! j) s = Inl e' \<longrightarrow>
                start_offset e' \<le> start_offset e"
      by (auto simp: less_Suc_eq_0_disj)
    moreover from IH(3) True have "start_offset e0 \<le> start_offset e"
      by simp
    moreover from e1 True IH(1) have "autoLang_loop (l # ls) s (Some e0) (Some n0) =
            Inl (Thrown_ParseError
              \<lparr>ParseError.lang = auto, string = s, message = SyntaxError.message e,
               location = Some (SyntaxError.location e), detected = Some n\<rparr>)"
      by simp
    ultimately show ?thesis by blast
  next
    case False
    from Cons.IH [OF rest, of e0 n0] obtain e n where
      IH: "autoLang_loop ls s (Some e0) (Some n0) =
            Inl (Thrown_ParseError
              \<lparr>ParseError.lang = auto, string = s, message = SyntaxError.message e,
               location = Some (SyntaxError.location e), detected = Some n\<rparr>)"
        "\<forall>j<length ls. \<forall>e'. language.parse (ls ! j) s = Inl e' \<longrightarrow>
                start_offset e' \<le> start_offset e"
        "start_offset e0 \<le> start_offset e"
        "e = e0 \<and> n = n0
              \<or> (\<exists>i<length ls. language.parse (ls ! i) s = Inl e \<and> n = language.name (ls ! i)
                    \<and> start_offset e0 < start_offset e
                    \<and> (\<forall>j<i. \<forall>e'. language.parse (ls ! j) s = Inl e' \<longrightarrow>
                          start_offset e' < start_offset e))"
      by blast
    from IH(4) have "e = e0 \<and> n = n0
        \<or> (\<exists>i<length (l # ls). language.parse ((l # ls) ! i) s = Inl e
              \<and> n = language.name ((l # ls) ! i)
              \<and> start_offset e0 < start_offset e
              \<and> (\<forall>j<i. \<forall>e'. language.parse ((l # ls) ! j) s = Inl e' \<longrightarrow>
                    start_offset e' < start_offset e))"
    proof
      assume "e = e0 \<and> n = n0"
      then show ?thesis by simp
    next
      assume "\<exists>i<length ls. language.parse (ls ! i) s = Inl e \<and> n = language.name (ls ! i)
                    \<and> start_offset e0 < start_offset e
                    \<and> (\<forall>j<i. \<forall>e'. language.parse (ls ! j) s = Inl e' \<longrightarrow>
                          start_offset e' < start_offset e)"
      then obtain i where "i < length ls" "language.parse (ls ! i) s = Inl e"
        "n = language.name (ls ! i)" "start_offset e0 < start_offset e"
        "\<forall>j<i. \<forall>e'. language.parse (ls ! j) s = Inl e' \<longrightarrow> start_offset e' < start_offset e"
        by blast
      with e1 False have "Suc i < length (l # ls)
          \<and> language.parse ((l # ls) ! Suc i) s = Inl e
          \<and> n = language.name ((l # ls) ! Suc i)
          \<and> start_offset e0 < start_offset e
          \<and> (\<forall>j<Suc i. \<forall>e'. language.parse ((l # ls) ! j) s = Inl e' \<longrightarrow>
                start_offset e' < start_offset e)"
        by (auto simp: less_Suc_eq_0_disj)
      then show ?thesis by blast
    qed
    moreover from IH(2,3) e1 False
    have "\<forall>j<length (l # ls). \<forall>e'. language.parse ((l # ls) ! j) s = Inl e' \<longrightarrow>
                start_offset e' \<le> start_offset e"
      by (auto simp: less_Suc_eq_0_disj)
    moreover from e1 False IH(1) have "autoLang_loop (l # ls) s (Some e0) (Some n0) =
            Inl (Thrown_ParseError
              \<lparr>ParseError.lang = auto, string = s, message = SyntaxError.message e,
               location = Some (SyntaxError.location e), detected = Some n\<rparr>)"
      by simp
    ultimately show ?thesis using IH(3) by blast
  qed
qed

text \<open>The languages in the order of \<^verbatim>\<open>allLanguages\<close>, each with its grammar.\<close>

lemma allLanguages_parse:
  "map (\<lambda>l. map_sum id parsed (language.parse l s)) (allLanguages ps) =
     [cParser ps s, pythonParser ps s, latexParser ps s, mathParser ps s]"
  by (simp add: allLanguages_def cLang_def pythonLang_def latexLang_def mathLang_def
      split: sum.split)

lemma allLanguages_name:
  "map language.name (allLanguages ps) = [''C'', ''Python'', ''Latex'', ''Math'']"
  by (simp add: allLanguages_def cLang_def pythonLang_def latexLang_def mathLang_def)

text \<open>
  C2. With \<^verbatim>\<open>auto\<close>, the grammars are tried in the order C, Python, LaTeX, Math.
  When the language at place \<open>i\<close> of this order is the first that parses the text,
  the result is its list of parse trees, with \<^verbatim>\<open>detected\<close> the name of that language
  and \<^verbatim>\<open>lang\<close> equal to \<^verbatim>\<open>auto\<close>; this holds for \<^verbatim>\<open>autoLang.parse\<close> and for the
  document that \<^verbatim>\<open>parse\<close> returns.
\<close>

theorem C2_first_success:
  assumes "i < length (allLanguages ps)"
    and "\<forall>j<i. isl (language.parse (allLanguages ps ! j) s)"
    and "language.parse (allLanguages ps ! i) s = Inr r"
  shows "map language.name (allLanguages ps) = [''C'', ''Python'', ''Latex'', ''Math'']
    \<and> map (\<lambda>l. map_sum id parsed (language.parse l s)) (allLanguages ps) =
        [cParser ps s, pythonParser ps s, latexParser ps s, mathParser ps s]
    \<and> autoLang_parse ps s =
        Inr \<lparr>parseResult.lang = auto, parsed = parsed r,
             detected = Some (language.name (allLanguages ps ! i))\<rparr>
    \<and> parse ps fromJson (input s auto b) =
        Inr \<lparr>lang = auto, detected = Some (language.name (allLanguages ps ! i)),
             string = s, showSubExpressions = Some b,
             expressions = Some (map fromJson (parsed r)),
             identifiers = None, subExpressions = None, toplevelExpressions = None,
             error = None\<rparr>"
proof -
  have "autoLang_parse ps s =
        Inr \<lparr>parseResult.lang = auto, parsed = parsed r,
             detected = Some (language.name (allLanguages ps ! i))\<rparr>"
    unfolding autoLang_parse_def using assms by (rule autoLang_loop_first)
  then show ?thesis
    by (simp add: allLanguages_parse allLanguages_name parse_def input_def)
qed

theorem C2_first_success_witness:
  "1 < length (allLanguages (standins 0 2 3))
   \<and> isl (language.parse (allLanguages (standins 0 2 3) ! 0) ''a and b'')
   \<and> language.parse (allLanguages (standins 0 2 3) ! 1) ''a and b'' =
       Inr \<lparr>parseResult.lang = python,
            parsed = [JBinary OpAND (JIdentifier ''a'') (JIdentifier ''b'')],
            detected = None\<rparr>
   \<and> parse (standins 0 2 3) expressionFromJson (input ''a and b'' auto True) =
       Inr \<lparr>lang = auto, detected = Some ''Python'',
            string = ''a and b'', showSubExpressions = Some True,
            expressions = Some [Binary OpAND (Identifier ''a'') (Identifier ''b'')],
            identifiers = None, subExpressions = None, toplevelExpressions = None,
            error = None\<rparr>"
proof -
  have p: "parser_parse ''a and b'' = Some [JBinary OpAND (JIdentifier ''a'') (JIdentifier ''b'')]"
    by code_simp
  have h1: "1 < length (allLanguages (standins 0 2 3))"
    by (simp add: allLanguages_def)
  have h2: "\<forall>j<1. isl (language.parse (allLanguages (standins 0 2 3) ! j) ''a and b'')"
    by (simp add: allLanguages_def cLang_def standins_def rejecting_def)
  have h3: "language.parse (allLanguages (standins 0 2 3) ! 1) ''a and b'' =
       Inr \<lparr>parseResult.lang = python,
            parsed = [JBinary OpAND (JIdentifier ''a'') (JIdentifier ''b'')],
            detected = None\<rparr>"
    by (simp add: allLanguages_def pythonLang_def standins_def grammar_def p)
  from h2 have h0: "isl (language.parse (allLanguages (standins 0 2 3) ! 0) ''a and b'')"
    by simp
  from C2_first_success [OF h1 h2 h3, of expressionFromJson True] h1 h0 h3
  show ?thesis
    by (simp add: allLanguages_def pythonLang_def)
qed

text \<open>
  C3. When all four grammars fail on a text, \<^verbatim>\<open>auto\<close> fails with a
  \<^verbatim>\<open>ParseError\<close> that carries the message and the location of one of the four
  failures, and the name of its language as \<^verbatim>\<open>detected\<close>: a failure whose offset no
  other failure exceeds, and that every failure of a language earlier in the order
  C, Python, LaTeX, Math stays strictly below.
\<close>

theorem C3_furthest_failure:
  assumes "cParser ps s = Inl e1" and "pythonParser ps s = Inl e2"
    and "latexParser ps s = Inl e3" and "mathParser ps s = Inl e4"
  shows "\<exists>i<4.
      autoLang_parse ps s =
        Inl (Thrown_ParseError
          \<lparr>ParseError.lang = auto, string = s,
           message = SyntaxError.message ([e1, e2, e3, e4] ! i),
           location = Some (SyntaxError.location ([e1, e2, e3, e4] ! i)),
           detected = Some ([''C'', ''Python'', ''Latex'', ''Math''] ! i)\<rparr>)
      \<and> parse ps fromJson (input s auto b) =
        Inl \<lparr>ParseError.lang = auto, string = s,
             message = SyntaxError.message ([e1, e2, e3, e4] ! i),
             location = Some (SyntaxError.location ([e1, e2, e3, e4] ! i)),
             detected = Some ([''C'', ''Python'', ''Latex'', ''Math''] ! i)\<rparr>
      \<and> (\<forall>j<4. start_offset ([e1, e2, e3, e4] ! j) \<le> start_offset ([e1, e2, e3, e4] ! i))
      \<and> (\<forall>j<i. start_offset ([e1, e2, e3, e4] ! j) < start_offset ([e1, e2, e3, e4] ! i))"
proof -
  let ?ls = "[pythonLang ps, latexLang ps, mathLang ps]"
  let ?es = "[e1, e2, e3, e4]"
  have fails: "language.parse (cLang ps) s = Inl e1" "language.parse (pythonLang ps) s = Inl e2"
    "language.parse (latexLang ps) s = Inl e3" "language.parse (mathLang ps) s = Inl e4"
    using assms by (simp_all add: cLang_def pythonLang_def latexLang_def mathLang_def)
  then have nth: "\<And>j. j < 3 \<Longrightarrow> language.parse (?ls ! j) s = Inl ([e2, e3, e4] ! j)"
    by (auto simp: less_Suc_eq_0_disj numeral_3_eq_3)
  have all: "\<forall>l\<in>set ?ls. isl (language.parse l s)"
    using fails by simp
  have start: "autoLang_parse ps s = autoLang_loop ?ls s (Some e1) (Some ''C'')"
    using fails by (simp add: autoLang_parse_def allLanguages_def cLang_def)
  from autoLang_loop_all_fail [OF all, of e1 "''C''"] obtain e n where
    res: "autoLang_loop ?ls s (Some e1) (Some ''C'') =
            Inl (Thrown_ParseError
              \<lparr>ParseError.lang = auto, string = s, message = SyntaxError.message e,
               location = Some (SyntaxError.location e), detected = Some n\<rparr>)"
    and le: "\<forall>j<length ?ls. \<forall>e'. language.parse (?ls ! j) s = Inl e' \<longrightarrow>
                start_offset e' \<le> start_offset e"
    and le0: "start_offset e1 \<le> start_offset e"
    and which: "e = e1 \<and> n = ''C''
              \<or> (\<exists>i<length ?ls. language.parse (?ls ! i) s = Inl e \<and> n = language.name (?ls ! i)
                    \<and> start_offset e1 < start_offset e
                    \<and> (\<forall>j<i. \<forall>e'. language.parse (?ls ! j) s = Inl e' \<longrightarrow>
                          start_offset e' < start_offset e))"
    by blast
  from le nth have le': "\<forall>j<3. start_offset ([e2, e3, e4] ! j) \<le> start_offset e"
    by simp
  with le0 have max: "\<forall>j<4. start_offset (?es ! j) \<le> start_offset e"
    by (auto simp: less_Suc_eq_0_disj numeral_eq_Suc)
  from which obtain i where i: "i < 4" "e = ?es ! i" "n = [''C'', ''Python'', ''Latex'', ''Math''] ! i"
    "\<forall>j<i. start_offset (?es ! j) < start_offset e"
  proof
    assume "e = e1 \<and> n = ''C''"
    then show ?thesis by (intro that [of 0]) simp_all
  next
    assume "\<exists>i<length ?ls. language.parse (?ls ! i) s = Inl e \<and> n = language.name (?ls ! i)
                    \<and> start_offset e1 < start_offset e
                    \<and> (\<forall>j<i. \<forall>e'. language.parse (?ls ! j) s = Inl e' \<longrightarrow>
                          start_offset e' < start_offset e)"
    then obtain k where k': "k < length ?ls" and k: "language.parse (?ls ! k) s = Inl e"
      "n = language.name (?ls ! k)" "start_offset e1 < start_offset e"
      "\<forall>j<k. \<forall>e'. language.parse (?ls ! j) s = Inl e' \<longrightarrow> start_offset e' < start_offset e"
      by blast
    from k' have k3: "k < 3" by simp
    from k3 k(1) nth have "e = [e2, e3, e4] ! k" by auto
    moreover from k3 k(2) have "n = [''Python'', ''Latex'', ''Math''] ! k"
      by (auto simp: less_Suc_eq_0_disj numeral_3_eq_3 pythonLang_def latexLang_def mathLang_def)
    moreover from k3 k(4) nth have "\<forall>j<k. start_offset ([e2, e3, e4] ! j) < start_offset e"
      by auto
    ultimately show ?thesis using k3 k(3)
      by (intro that [of "Suc k"]) (auto simp: less_Suc_eq_0_disj)
  qed
  from start res i have "autoLang_parse ps s =
        Inl (Thrown_ParseError
          \<lparr>ParseError.lang = auto, string = s,
           message = SyntaxError.message (?es ! i),
           location = Some (SyntaxError.location (?es ! i)),
           detected = Some ([''C'', ''Python'', ''Latex'', ''Math''] ! i)\<rparr>)"
    by simp
  moreover from this have "parse ps fromJson (input s auto b) =
        Inl \<lparr>ParseError.lang = auto, string = s,
             message = SyntaxError.message (?es ! i),
             location = Some (SyntaxError.location (?es ! i)),
             detected = Some ([''C'', ''Python'', ''Latex'', ''Math''] ! i)\<rparr>"
    by (simp add: parse_def input_def)
  ultimately show ?thesis using i max by blast
qed


theorem C3_furthest_failure_witness:
  "cParser (standins 2 5 5) ''a b'' = rejecting 2 ''a b''
   \<and> pythonParser (standins 2 5 5) ''a b'' = rejecting 0 ''a b''
   \<and> latexParser (standins 2 5 5) ''a b'' = rejecting 5 ''a b''
   \<and> mathParser (standins 2 5 5) ''a b'' = rejecting 5 ''a b''
   \<and> parse (standins 2 5 5) expressionFromJson (input ''a b'' auto True) =
       Inl \<lparr>ParseError.lang = auto, string = ''a b'',
            message = ''Expected expression'',
            location = Some \<lparr>start = \<lparr>offset = 5, line = 1, column = 6\<rparr>,
                              finish = \<lparr>offset = 6, line = 1, column = 7\<rparr>\<rparr>,
            detected = Some ''Latex''\<rparr>"
proof -
  let ?e = "\<lambda>n. \<lparr>SyntaxError.message = ''Expected expression'',
          location = \<lparr>start = \<lparr>offset = n, line = 1, column = n + 1\<rparr>,
                      finish = \<lparr>offset = n + 1, line = 1, column = n + 2\<rparr>\<rparr>\<rparr>"
  have p: "parser_parse ''a b'' = None"
    by code_simp
  have h1: "cParser (standins 2 5 5) ''a b'' = Inl (?e 2)"
    and h2: "pythonParser (standins 2 5 5) ''a b'' = Inl (?e 0)"
    and h3: "latexParser (standins 2 5 5) ''a b'' = Inl (?e 5)"
    and h4: "mathParser (standins 2 5 5) ''a b'' = Inl (?e 5)"
    by (simp_all add: standins_def grammar_def rejecting_def p)
  from C3_furthest_failure [OF h1 h2 h3 h4, of expressionFromJson True]
  obtain i where i: "i < 4"
    and res: "parse (standins 2 5 5) expressionFromJson (input ''a b'' auto True) =
        Inl \<lparr>ParseError.lang = auto, string = ''a b'',
             message = SyntaxError.message ([?e 2, ?e 0, ?e 5, ?e 5] ! i),
             location = Some (SyntaxError.location ([?e 2, ?e 0, ?e 5, ?e 5] ! i)),
             detected = Some ([''C'', ''Python'', ''Latex'', ''Math''] ! i)\<rparr>"
    and max: "\<forall>j<4. start_offset ([?e 2, ?e 0, ?e 5, ?e 5] ! j)
                \<le> start_offset ([?e 2, ?e 0, ?e 5, ?e 5] ! i)"
    and first: "\<forall>j<i. start_offset ([?e 2, ?e 0, ?e 5, ?e 5] ! j)
                < start_offset ([?e 2, ?e 0, ?e 5, ?e 5] ! i)"
    by blast
  from i consider "i = 0" | "i = 1" | "i = 2" | "i = 3"
    by linarith
  then have "i = 2"
  proof cases
    case 1
    with max [rule_format, of 2] show ?thesis by (simp add: start_offset_def)
  next
    case 2
    with max [rule_format, of 2] show ?thesis by (simp add: start_offset_def)
  next
    case 3
    then show ?thesis .
  next
    case 4
    with first [rule_format, of 2] show ?thesis by (simp add: start_offset_def)
  qed
  with res h1 h2 h3 h4 show ?thesis
    by (simp add: rejecting_def)
qed

section \<open>Properties of the model\<close>

lemma parse_Inl:
  assumes "parse ps fromJson (input s l b) = Inl e"
  shows "ParseError.lang e = l" and "ParseError.string e = s"
  using assms by (auto simp: parse_def input_def split: sum.splits)

lemma analyze_fields:
  "\<exists>es ids subs tops. expressions (analyze d) = Some es \<and> identifiers (analyze d) = Some ids
     \<and> subExpressions (analyze d) = Some subs \<and> toplevelExpressions (analyze d) = Some tops
     \<and> error (analyze d) = None"
  by (simp add: analyze_def Let_def)

lemma parsed_document_no_error:
  assumes "error (parsed_document ps fromJson s l b) = None"
  shows "\<exists>d. parse ps fromJson (input s l b) = Inr d
           \<and> parsed_document ps fromJson s l b = analyze d"
  using assms by (auto simp: parsed_document_def handleError_def split: sum.splits)

lemma state_of_analyze:
  "\<exists>st. state_of ev s l b (analyze d) sel = Some st \<and> selectedRow st = sel"
  by (cases sel) (simp_all add: state_of_def analyze_def Let_def)

lemma state_of_selectedRow:
  "state_of ev s l b d sel = Some st \<Longrightarrow> selectedRow st = sel"
  by (auto simp: state_of_def Let_def split: option.splits)

text \<open>
  C6. A \<^verbatim>\<open>selectRow(r)\<close> event makes the selection \<^verbatim>\<open>null\<close> when \<open>r\<close> is the
  selected row and \<open>r\<close> otherwise: every state that the model emits for the event
  has this selection, and when the text of the running stream parses, the model does
  emit one and goes on with this selection. Selecting 3 twice ends with no selection,
  selecting 3 and then 5 ends with 5.
\<close>

theorem C6_toggle:
  assumes "error (parsed_document ps fromJson s l b) = None"
  shows "toggle sel r = (if sel = Some r then None else Some r)
    \<and> (\<forall>m st. step ps' fromJson' ev' (Running s' l' b' sel) (SelectRow r) = (m, Some st)
          \<longrightarrow> selectedRow st = toggle sel r \<and> m = Running s' l' b' (toggle sel r))
    \<and> (\<exists>st. step ps fromJson ev (Running s l b sel) (SelectRow r) =
               (Running s l b (toggle sel r), Some st)
             \<and> selectedRow st = toggle sel r)
    \<and> map (map_option selectedRow)
          (run_model ps fromJson ev (Running s l b None) [SelectRow 3, SelectRow 3]) =
        [Some (Some 3), Some None]
    \<and> map (map_option selectedRow)
          (run_model ps fromJson ev (Running s l b None) [SelectRow 3, SelectRow 5]) =
        [Some (Some 3), Some (Some 5)]"
proof -
  from assms obtain d where d: "parsed_document ps fromJson s l b = analyze d"
    using parsed_document_no_error by blast
  have emit: "\<exists>st. state_of ev s l b (parsed_document ps fromJson s l b) x = Some st
                 \<and> selectedRow st = x" for x
    unfolding d by (rule state_of_analyze)
  have one: "\<exists>st. step ps fromJson ev (Running s l b x) (SelectRow y) =
               (Running s l b (toggle x y), Some st)
             \<and> selectedRow st = toggle x y" for x y
    using emit [of "toggle x y"] by auto
  have any: "\<forall>m st. step ps' fromJson' ev' (Running s' l' b' sel) (SelectRow r) = (m, Some st)
          \<longrightarrow> selectedRow st = toggle sel r \<and> m = Running s' l' b' (toggle sel r)"
    by (auto split: option.splits dest: state_of_selectedRow)
  from one [of None 3] obtain st1 where
    st1: "step ps fromJson ev (Running s l b None) (SelectRow 3) =
            (Running s l b (Some 3), Some st1)" "selectedRow st1 = Some 3"
    by (auto simp: toggle_def)
  from one [of "Some 3" 3] obtain st2 where
    st2: "step ps fromJson ev (Running s l b (Some 3)) (SelectRow 3) =
            (Running s l b None, Some st2)" "selectedRow st2 = None"
    by (auto simp: toggle_def)
  from one [of "Some 3" 5] obtain st3 where
    st3: "step ps fromJson ev (Running s l b (Some 3)) (SelectRow 5) =
            (Running s l b (Some 5), Some st3)" "selectedRow st3 = Some 5"
    by (auto simp: toggle_def)
  have "map (map_option selectedRow)
          (run_model ps fromJson ev (Running s l b None) [SelectRow 3, SelectRow 3]) =
        [Some (Some 3), Some None]"
    using st1 st2 by simp
  moreover have "map (map_option selectedRow)
          (run_model ps fromJson ev (Running s l b None) [SelectRow 3, SelectRow 5]) =
        [Some (Some 3), Some (Some 5)]"
    using st1 st3 by simp
  ultimately show ?thesis
    using one [of sel r] any by (simp add: toggle_def)
qed

theorem C6_toggle_witness:
  "error (parsed_document (standins 0 0 0) expressionFromJson ''a and b'' auto True) = None
   \<and> map (map_option selectedRow)
        (run_model (standins 0 0 0) expressionFromJson evaluateExpression
           (Running ''a and b'' auto True None) [SelectRow 3, SelectRow 3]) =
      [Some (Some 3), Some None]
   \<and> map (map_option selectedRow)
        (run_model (standins 0 0 0) expressionFromJson evaluateExpression
           (Running ''a and b'' auto True None) [SelectRow 3, SelectRow 5]) =
      [Some (Some 3), Some (Some 5)]"
proof -
  have p: "parser_parse ''a and b'' = Some [JBinary OpAND (JIdentifier ''a'') (JIdentifier ''b'')]"
    by code_simp
  have h: "error (parsed_document (standins 0 0 0) expressionFromJson ''a and b'' auto True) = None"
    by (simp add: parsed_document_def parse_def input_def autoLang_parse_def allLanguages_def
        cLang_def pythonLang_def standins_def rejecting_def grammar_def p analyze_def Let_def)
  from C6_toggle [OF h, where ev = evaluateExpression and sel = None and r = 3] h
  show ?thesis
    by blast
qed

text \<open>
  C8. A new text, a new language or a new flag starts a new inner stream: the state
  that the model emits for the event has no selected row and no evaluation, whatever
  row was selected before, and the model goes on with no row selected. The first state
  of the model has no selected row either.
\<close>

theorem C8_reset_on_change:
  "(\<exists>st. step ps fromJson ev (Running s l b sel) (Input s') = (Running s' l b None, Some st)
          \<and> selectedRow st = None \<and> subEvalutation st = None)
   \<and> (\<exists>st. step ps fromJson ev (Running s l b sel) (Language l') = (Running s l' b None, Some st)
          \<and> selectedRow st = None \<and> subEvalutation st = None)
   \<and> (\<exists>st. step ps fromJson ev (Running s l b sel) (ShowSubExpressions b') =
            (Running s l b' None, Some st)
          \<and> selectedRow st = None \<and> subEvalutation st = None)
   \<and> (\<exists>st. hd (model ps fromJson ev es) = Some st
          \<and> selectedRow st = None \<and> subEvalutation st = None)"
  by (simp add: state_of_def model_def)

text \<open>
  C10. When parsing fails, the object that \<^verbatim>\<open>handleError\<close> emits has the language,
  the detected language, the text and an error with its location and message, and
  nothing else: no \<^verbatim>\<open>expressions\<close>, \<^verbatim>\<open>identifiers\<close>, \<^verbatim>\<open>subExpressions\<close> or
  \<^verbatim>\<open>toplevelExpressions\<close>. The state that the model then emits lacks these four
  fields too.
\<close>

theorem C10_error_document:
  assumes "parse ps fromJson (input s l b) = Inl e"
  shows "parsed_document ps fromJson s l b =
      \<lparr>lang = l, detected = ParseError.detected e, string = s,
       showSubExpressions = None,
       expressions = None, identifiers = None, subExpressions = None,
       toplevelExpressions = None,
       error = Some \<lparr>location = ParseError.location e, message = ParseError.message e\<rparr>\<rparr>
    \<and> (\<exists>st. state_of ev s l b (parsed_document ps fromJson s l b) None = Some st
          \<and> expressions st = None \<and> identifiers st = None \<and> subExpressions st = None
          \<and> toplevelExpressions st = None
          \<and> error st = Some \<lparr>location = ParseError.location e, message = ParseError.message e\<rparr>
          \<and> lang st = l \<and> detected st = ParseError.detected e \<and> string st = s)"
  using assms parse_Inl [OF assms]
  by (simp add: parsed_document_def handleError_def state_of_def)

theorem C10_error_document_witness:
  "parse (standins 0 0 0) expressionFromJson (input ''a b'' python True) =
     Inl \<lparr>ParseError.lang = python, string = ''a b'', message = ''Expected expression'',
          location = Some \<lparr>start = \<lparr>offset = 0, line = 1, column = 1\<rparr>,
                            finish = \<lparr>offset = 1, line = 1, column = 2\<rparr>\<rparr>,
          detected = None\<rparr>
   \<and> parsed_document (standins 0 0 0) expressionFromJson ''a b'' python True =
      \<lparr>lang = python, detected = None, string = ''a b'',
       showSubExpressions = None,
       expressions = None, identifiers = None, subExpressions = None,
       toplevelExpressions = None,
       error = Some \<lparr>location = Some \<lparr>start = \<lparr>offset = 0, line = 1, column = 1\<rparr>,
                                       finish = \<lparr>offset = 1, line = 1, column = 2\<rparr>\<rparr>,
                     message = ''Expected expression''\<rparr>\<rparr>"
proof -
  have p: "parser_parse ''a b'' = None"
    by code_simp
  have h: "parse (standins 0 0 0) expressionFromJson (input ''a b'' python True) =
     Inl \<lparr>ParseError.lang = python, string = ''a b'', message = ''Expected expression'',
          location = Some \<lparr>start = \<lparr>offset = 0, line = 1, column = 1\<rparr>,
                            finish = \<lparr>offset = 1, line = 1, column = 2\<rparr>\<rparr>,
          detected = None\<rparr>"
    by (simp add: parse_def input_def concrete_def pythonLang_def standins_def grammar_def
        rejecting_def p)
  from C10_error_document [OF h, of evaluateExpression] h show ?thesis
    by simp
qed

section \<open>Properties of the analysis\<close>

lemma seen_member: "x \<in> set acc \<Longrightarrow> seen acc x = acc"
  by (simp add: seen_def)

lemma seen_new: "x \<notin> set acc \<Longrightarrow> seen acc x = acc @ [x]"
  by (simp add: seen_def)

lemma set_seen: "set (seen acc x) = insert x (set acc)"
  by (auto simp: seen_def)

lemma distinct_seen: "distinct acc \<Longrightarrow> distinct (seen acc x)"
  by (simp add: seen_def)

lemma set_foldl_seen: "set (foldl seen acc xs) = set acc \<union> set xs"
  by (induction xs arbitrary: acc) (auto simp: set_seen)

lemma distinct_foldl_seen: "distinct acc \<Longrightarrow> distinct (foldl seen acc xs)"
  by (induction xs arbitrary: acc) (auto simp: distinct_seen)

lemma set_first_seen: "set (first_seen xs) = set xs"
  by (simp add: first_seen_def set_foldl_seen)

lemma distinct_first_seen: "distinct (first_seen xs)"
  by (simp add: first_seen_def distinct_foldl_seen)

lemma first_seen_snoc: "first_seen (xs @ [x]) = seen (first_seen xs) x"
  by (simp add: first_seen_def)

lemma foldl_seen_first_seen: "foldl seen acc (first_seen xs) = foldl seen acc xs"
proof (induction xs rule: rev_induct)
  case Nil
  then show ?case by (simp add: first_seen_def)
next
  case (snoc x xs)
  show ?case
  proof (cases "x \<in> set xs")
    case True
    then have "x \<in> set (foldl seen acc xs)" by (simp add: set_foldl_seen)
    with True snoc show ?thesis
      by (simp add: first_seen_snoc seen_member set_first_seen)
  next
    case False
    with snoc show ?thesis
      by (simp add: first_seen_snoc seen_new set_first_seen)
  qed
qed

lemma foldl_seen_concat_first_seen:
  "foldl seen acc (concat (map (\<lambda>e. first_seen (g e)) es)) =
     foldl seen acc (concat (map g es))"
  by (induction es arbitrary: acc) (simp_all add: foldl_seen_first_seen)

lemma first_seen_collectIdentifiers:
  "first_seen (concat (map collectIdentifiers es)) = first_seen (concat (map identifierNames es))"
  unfolding first_seen_def [of "concat _"] collectIdentifiers_def
  by (rule foldl_seen_concat_first_seen)

text \<open>
  The set of a list: the array of the first-seen elements while they are at most 8,
  and from the 9th on the trie, entered by the 9th, the first 8 and the rest.
\<close>

lemma toSet_first_seen:
  "toSet xs =
     (if length (first_seen xs) \<le> 8 then ArrayMapNode (first_seen xs)
      else HashTrie (first_seen xs ! 8 # take 8 (first_seen xs) @ drop 9 (first_seen xs)))"
proof (induction xs rule: rev_induct)
  case Nil
  then show ?case by (simp add: toSet_def first_seen_def)
next
  case (snoc x xs)
  let ?F = "first_seen xs"
  have step: "toSet (xs @ [x]) = add (toSet xs) x"
    by (simp add: toSet_def)
  have parts: "set (?F ! 8 # take 8 ?F @ drop 9 ?F) = set ?F" if "8 < length ?F"
  proof -
    from that have "?F = take 8 ?F @ ?F ! 8 # drop 9 ?F"
      using id_take_nth_drop [of 8 ?F] by simp
    then have "set ?F = set (take 8 ?F @ ?F ! 8 # drop 9 ?F)" by simp
    then show ?thesis by auto
  qed
  show ?case
  proof (cases "x \<in> set ?F")
    case True
    with snoc parts show ?thesis
      by (auto simp: step first_seen_snoc seen_member)
  next
    case False
    then have F': "first_seen (xs @ [x]) = ?F @ [x]"
      by (simp add: first_seen_snoc seen_new)
    consider "length ?F < 8" | "length ?F = 8" | "8 < length ?F" by linarith
    then show ?thesis
    proof cases
      case 1
      with snoc False show ?thesis by (simp add: step F')
    next
      case 2
      with snoc False show ?thesis by (simp add: step F' nth_append)
    next
      case 3
      with snoc False parts show ?thesis by (simp add: step F' nth_append)
    qed
  qed
qed

lemma toList_toSet:
  "toList (toSet xs) =
     (if length (first_seen xs) \<le> 8 then first_seen xs
      else sort_key (\<lambda>k. trieOrder (hashString k))
             (first_seen xs ! 8 # take 8 (first_seen xs) @ drop 9 (first_seen xs)))"
  by (simp add: toSet_first_seen)

lemma set_toList_toSet: "set (toList (toSet xs)) = set xs"
proof (cases "length (first_seen xs) \<le> 8")
  case True
  then show ?thesis by (simp add: toList_toSet set_first_seen)
next
  case False
  let ?F = "first_seen xs"
  from False have "?F = take 8 ?F @ ?F ! 8 # drop 9 ?F"
    using id_take_nth_drop [of 8 ?F] by simp
  then have "set ?F = set (take 8 ?F @ ?F ! 8 # drop 9 ?F)" by simp
  then have "set (?F ! 8 # take 8 ?F @ drop 9 ?F) = set xs"
    by (auto simp: set_first_seen)
  with False show ?thesis by (simp add: toList_toSet del: sort_key_simps)
qed

lemma distinct_toList_toSet: "distinct (toList (toSet xs))"
proof (cases "length (first_seen xs) \<le> 8")
  case True
  then show ?thesis by (simp add: toList_toSet distinct_first_seen)
next
  case False
  let ?F = "first_seen xs"
  from False have "?F = take 8 ?F @ ?F ! 8 # drop 9 ?F"
    using id_take_nth_drop [of 8 ?F] by simp
  then have "distinct (take 8 ?F @ ?F ! 8 # drop 9 ?F)"
    using distinct_first_seen [of xs] by simp
  then have "distinct (?F ! 8 # take 8 ?F @ drop 9 ?F)"
    by auto
  with False show ?thesis by (simp add: toList_toSet del: sort_key_simps)
qed

text \<open>
  C4, as the claim states it, fails: for the nine expressions \<^verbatim>\<open>i, h, g, f, e, d, c,
  b, a\<close> the names are first seen in this order, and \<^verbatim>\<open>analyze\<close> lists them as
  \<^verbatim>\<open>a, b, c, d, e, f, g, h, i\<close>.
\<close>

theorem C4_nine_names_counterexample:
  "identifiers (analyze ((input [] auto True)
       \<lparr>expressions := Some [Identifier ''i'', Identifier ''h'', Identifier ''g'',
          Identifier ''f'', Identifier ''e'', Identifier ''d'', Identifier ''c'',
          Identifier ''b'', Identifier ''a'']\<rparr>)) =
     Some [''a'', ''b'', ''c'', ''d'', ''e'', ''f'', ''g'', ''h'', ''i'']
   \<and> first_seen (concat (map identifierNames
        [Identifier ''i'', Identifier ''h'', Identifier ''g'',
          Identifier ''f'', Identifier ''e'', Identifier ''d'', Identifier ''c'',
          Identifier ''b'', Identifier ''a''])) =
     [''i'', ''h'', ''g'', ''f'', ''e'', ''d'', ''c'', ''b'', ''a'']"
proof -
  let ?es = "[Identifier ''i'', Identifier ''h'', Identifier ''g'',
          Identifier ''f'', Identifier ''e'', Identifier ''d'', Identifier ''c'',
          Identifier ''b'', Identifier ''a'']"
  have names: "concat (map collectIdentifiers ?es) =
      [''i'', ''h'', ''g'', ''f'', ''e'', ''d'', ''c'', ''b'', ''a'']"
    by (simp add: collectIdentifiers_def first_seen_def seen_def)
  have keys:
    "trieOrder (hashString ''a'') = 1174405120" "trieOrder (hashString ''b'') = 2248146944"
    "trieOrder (hashString ''c'') = 3321888768" "trieOrder (hashString ''d'') = 4395630592"
    "trieOrder (hashString ''e'') = 5469372416" "trieOrder (hashString ''f'') = 6543114240"
    "trieOrder (hashString ''g'') = 7616856064" "trieOrder (hashString ''h'') = 8690597888"
    "trieOrder (hashString ''i'') = 9764339712"
    by (simp_all add: hashString_def smi_def trieOrder_def)
  have sorted: "toList (toSet [''i'', ''h'', ''g'', ''f'', ''e'', ''d'', ''c'', ''b'', ''a'']) =
      [''a'', ''b'', ''c'', ''d'', ''e'', ''f'', ''g'', ''h'', ''i'']"
    by (simp add: toSet_def keys)
  have "identifiers (analyze ((input [] auto True)\<lparr>expressions := Some ?es\<rparr>)) =
      Some (toList (toSet (concat (map collectIdentifiers ?es))))"
    by (simp add: analyze_def)
  then have "identifiers (analyze ((input [] auto True)\<lparr>expressions := Some ?es\<rparr>)) =
      Some [''a'', ''b'', ''c'', ''d'', ''e'', ''f'', ''g'', ''h'', ''i'']"
    by (simp only: names sorted)
  moreover have "first_seen (concat (map identifierNames ?es)) =
      [''i'', ''h'', ''g'', ''f'', ''e'', ''d'', ''c'', ''b'', ''a'']"
    by (simp add: first_seen_def seen_def)
  ultimately show ?thesis by (rule conjI)
qed

text \<open>
  C4, amended. \<^verbatim>\<open>analyze\<close> lists every name of an identifier of the expressions,
  each name once. Let \<open>F\<close> be the names in first-seen order, for the depth-first
  pre-order traversal, left to right, of the expressions in list order. With at most 8
  different names the list is \<open>F\<close>; with more, it is in the order of the hash trie
  of the set that removes the duplicates.
\<close>

theorem C4_identifiers:
  "identifiers (analyze (d\<lparr>expressions := Some es\<rparr>)) =
     Some (if length (first_seen (concat (map identifierNames es))) \<le> 8
           then first_seen (concat (map identifierNames es))
           else sort_key (\<lambda>k. trieOrder (hashString k))
                  (first_seen (concat (map identifierNames es)) ! 8
                   # take 8 (first_seen (concat (map identifierNames es)))
                   @ drop 9 (first_seen (concat (map identifierNames es)))))
   \<and> (\<exists>ids. identifiers (analyze (d\<lparr>expressions := Some es\<rparr>)) = Some ids
         \<and> distinct ids
         \<and> set ids = (\<Union>e\<in>set es. set (identifierNames e)))"
proof -
  let ?names = "concat (map collectIdentifiers es)"
  let ?F = "first_seen (concat (map identifierNames es))"
  have ids: "identifiers (analyze (d\<lparr>expressions := Some es\<rparr>)) =
      Some (toList (toSet ?names))"
    by (simp add: analyze_def)
  have order: "toList (toSet ?names) =
      (if length ?F \<le> 8 then ?F
       else sort_key (\<lambda>k. trieOrder (hashString k)) (?F ! 8 # take 8 ?F @ drop 9 ?F))"
    by (simp only: toList_toSet first_seen_collectIdentifiers)
  have "set ?names = (\<Union>e\<in>set es. set (identifierNames e))"
    by (simp add: collectIdentifiers_def set_first_seen)
  then have elems: "set (toList (toSet ?names)) = (\<Union>e\<in>set es. set (identifierNames e))"
    by (simp only: set_toList_toSet)
  have once: "distinct (toList (toSet ?names))"
    by (rule distinct_toList_toSet)
  from ids order have "identifiers (analyze (d\<lparr>expressions := Some es\<rparr>)) =
     Some (if length ?F \<le> 8 then ?F
           else sort_key (\<lambda>k. trieOrder (hashString k)) (?F ! 8 # take 8 ?F @ drop 9 ?F))"
    by (simp only:)
  moreover from ids elems once
  have "\<exists>ids. identifiers (analyze (d\<lparr>expressions := Some es\<rparr>)) = Some ids
         \<and> distinct ids
         \<and> set ids = (\<Union>e\<in>set es. set (identifierNames e))"
    by blast
  ultimately show ?thesis by (rule conjI)
qed

theorem C4_identifiers_witness:
  "identifiers (analyze ((input ''b and a'' auto True)
       \<lparr>expressions := Some [Binary OpAND (Identifier ''b'') (Identifier ''a'')]\<rparr>)) =
     Some [''b'', ''a'']
   \<and> identifiers (analyze ((input ''a and b, b'' auto True)
       \<lparr>expressions := Some [Binary OpAND (Identifier ''a'') (Identifier ''b''),
                             Identifier ''b'']\<rparr>)) =
     Some [''a'', ''b'']"
proof -
  have "first_seen [''b'', ''a''] = [''b'', ''a'']" "first_seen [''a'', ''b'', ''b''] = [''a'', ''b'']"
    by (simp_all add: first_seen_def seen_def)
  with C4_identifiers [where d = "input ''b and a'' auto True"
       and es = "[Binary OpAND (Identifier ''b'') (Identifier ''a'')]"]
    C4_identifiers [where d = "input ''a and b, b'' auto True"
       and es = "[Binary OpAND (Identifier ''a'') (Identifier ''b''), Identifier ''b'']"]
  show ?thesis by simp
qed

text \<open>
  C5. For the two top-level expressions of \<^verbatim>\<open>a and b, a or b\<close> the identifiers
  \<^verbatim>\<open>a\<close> and \<^verbatim>\<open>b\<close> are listed twice in \<^verbatim>\<open>subExpressions\<close>, once for each
  top-level expression, while \<^verbatim>\<open>identifiers\<close> has each name once: the list for
  \<^verbatim>\<open>subExpressions\<close> is flattened without the \<^verbatim>\<open>toSet()\<close> that the list for
  \<^verbatim>\<open>identifiers\<close> goes through.
\<close>

theorem C5_duplicates_across_expressions:
  "subExpressions (analyze ((input ''a and b, a or b'' auto True)
       \<lparr>expressions := Some [Binary OpAND (Identifier ''a'') (Identifier ''b''),
                             Binary OpOR (Identifier ''a'') (Identifier ''b'')]\<rparr>)) =
     Some [Binary OpAND (Identifier ''a'') (Identifier ''b''), Identifier ''a'', Identifier ''b'',
           Binary OpOR (Identifier ''a'') (Identifier ''b''), Identifier ''a'', Identifier ''b'']
   \<and> \<not> distinct
         [Binary OpAND (Identifier ''a'') (Identifier ''b''), Identifier ''a'', Identifier ''b'',
          Binary OpOR (Identifier ''a'') (Identifier ''b''), Identifier ''a'', Identifier ''b'']
   \<and> identifiers (analyze ((input ''a and b, a or b'' auto True)
       \<lparr>expressions := Some [Binary OpAND (Identifier ''a'') (Identifier ''b''),
                             Binary OpOR (Identifier ''a'') (Identifier ''b'')]\<rparr>)) =
     Some [''a'', ''b'']"
  by (simp add: analyze_def Let_def collectSubExpressions_def collectIdentifiers_def
      first_seen_def seen_def toSet_def)

lemma rowBit_iff: "rowBit i r = (i < 32 \<and> bit r i)"
proof -
  let ?w = "and (word_of_int (2 ^ i) :: 32 word) (word_of_int r)"
  have bits: "bit ?w n = (n = i \<and> i < 32 \<and> bit r i)" for n
    by (auto simp: bit_and_iff bit_word_of_int_iff bit_exp_iff)
  have "(?w = 0) = (\<forall>n<32. \<not> bit ?w n)"
    by (simp add: bit_eq_iff)
  also have "\<dots> = (\<not> (i < 32 \<and> bit r i))"
    using bits by auto
  finally show ?thesis by (simp add: rowBit_def)
qed

lemma foldl_update_map_of:
  "foldl (\<lambda>m (k, v). m(k \<mapsto> v)) m0 kvs = m0 ++ map_of (rev kvs)"
  by (induction kvs arbitrary: m0) (auto simp: map_add_def fun_eq_iff split: option.splits)

lemma Map_of_rev: "Map_of kvs = map_of (rev kvs)"
  by (simp add: Map_of_def foldl_update_map_of)

lemma Map_of_distinct: "distinct (map fst kvs) \<Longrightarrow> Map_of kvs = map_of kvs"
  by (metis map_of_inject_set Map_of_rev set_rev distinct_rev rev_map)

lemma Map_of_graph:
  "Map_of (map (\<lambda>x. (h x, g x)) xs) k = Some v \<Longrightarrow> \<exists>x\<in>set xs. k = h x \<and> v = g x"
  by (auto simp: Map_of_rev rev_map [symmetric] dest!: map_of_SomeD)

lemma Map_of_function:
  assumes "x \<in> set xs" and "inj h"
  shows "Map_of (map (\<lambda>x. (h x, g x)) xs) (h x) = Some (g x)"
proof -
  have "h x \<in> fst ` set (rev (map (\<lambda>x. (h x, g x)) xs))"
    using assms(1) by force
  then obtain v where v: "Map_of (map (\<lambda>x. (h x, g x)) xs) (h x) = Some v"
    unfolding Map_of_rev by (meson domD domI weak_map_of_SomeI map_of_eq_None_iff not_Some_eq)
  from Map_of_graph [OF v] obtain y where "h x = h y" "v = g y" by blast
  with assms(2) have "v = g x" by (simp add: inj_eq)
  with v show ?thesis by simp
qed

lemma identifierMap_nth:
  assumes "distinct ids" and "i < length ids"
  shows "identifierMap ids r (ids ! i) = Some (rowBit i r)"
proof -
  have eq: "map (\<lambda>(i, n). (n, rowBit i r)) (enumerate 0 ids) =
      zip ids (map (\<lambda>i. rowBit i r) [0..<length ids])"
    by (rule nth_equalityI) (simp_all add: nth_enumerate_eq)
  have "distinct (map fst (zip ids (map (\<lambda>i. rowBit i r) [0..<length ids])))"
    using assms(1) by simp
  then have "identifierMap ids r = map_of (zip ids (map (\<lambda>i. rowBit i r) [0..<length ids]))"
    unfolding identifierMap_def eq by (rule Map_of_distinct)
  with assms show ?thesis by (simp add: map_of_zip_nth)
qed

lemma subEvalutation_of_Inl:
  "e \<in> set tops \<Longrightarrow>
     subEvalutation_of ev ids tops r (Inl e) = Some (ev e (identifierMap ids r))"
  using Map_of_function [of e tops Inl "\<lambda>e. ev e (identifierMap ids r)"]
  by (simp add: subEvalutation_of_def Let_def map_add_def)

lemma subEvalutation_of_Inr:
  "subEvalutation_of ev ids tops r (Inr n) = identifierMap ids r n"
proof (cases "identifierMap ids r n")
  case None
  have "Map_of (map (\<lambda>e. (Inl e, ev e (identifierMap ids r))) tops) (Inr n) = None"
    using Map_of_graph [of Inl "\<lambda>e. ev e (identifierMap ids r)" tops "Inr n"]
    by (cases "Map_of (map (\<lambda>e. (Inl e, ev e (identifierMap ids r))) tops) (Inr n)") auto
  with None show ?thesis
    by (simp add: subEvalutation_of_def Let_def map_add_def)
next
  case (Some v)
  then show ?thesis
    by (simp add: subEvalutation_of_def Let_def map_add_def)
qed

lemma state_of_Some:
  assumes "identifiers d = Some ids" and "toplevelExpressions d = Some tops"
  shows "\<exists>st. state_of ev s l b d (Some r) = Some st \<and> selectedRow st = Some r
           \<and> subEvalutation st = Some (subEvalutation_of ev ids tops r)"
  using assms by (simp add: state_of_def)

lemma analyze_identifiers_distinct:
  "\<exists>ids. identifiers (analyze d) = Some ids \<and> distinct ids"
  by (simp add: analyze_def Let_def distinct_toList_toSet)

text \<open>
  C7, as the claim states it, fails: with 33 identifiers and the row \<open>2 ^ 32\<close>, bit
  32 of the row is set, and the identifier at index 32 is assigned false.
\<close>

theorem C7_bit_32_counterexample:
  "\<exists>ids st m.
     identifiers (analyze ((input [] auto True)
       \<lparr>expressions := Some (map (\<lambda>k. Identifier (replicate (Suc k) CHR ''x'')) [0..<33])\<rparr>))
       = Some ids
     \<and> length ids = 33
     \<and> state_of evaluateExpression [] auto True
         (analyze ((input [] auto True)
           \<lparr>expressions := Some (map (\<lambda>k. Identifier (replicate (Suc k) CHR ''x'')) [0..<33])\<rparr>))
         (Some (2 ^ 32)) = Some st
     \<and> subEvalutation st = Some m
     \<and> m (Inr (ids ! 32)) = Some False
     \<and> bit (2 ^ 32 :: int) 32"
proof -
  let ?names = "map (\<lambda>k. replicate (Suc k) CHR ''x'') [0..<33]"
  let ?es = "map (\<lambda>k. Identifier (replicate (Suc k) CHR ''x'')) [0..<33]"
  let ?d = "analyze ((input [] auto True)\<lparr>expressions := Some ?es\<rparr>)"
  let ?ids = "toList (toSet (concat (map collectIdentifiers ?es)))"
  have ids: "identifiers ?d = Some ?ids"
    by (simp add: analyze_def Let_def)
  have tops: "toplevelExpressions ?d = Some []"
    by (simp add: analyze_def Let_def filter_empty_conv)
  have "inj_on (\<lambda>k. replicate (Suc k) CHR ''x'') {0..<33}"
    by (rule inj_onI) (metis length_replicate nat.inject)
  then have "distinct ?names"
    by (simp add: distinct_map)
  then have "card (set ?names) = length ?names"
    by (rule distinct_card)
  moreover have "length ?names = 33"
    by simp
  ultimately have "card (set ?names) = 33"
    by (rule trans)
  moreover have "concat (map collectIdentifiers ?es) = ?names"
    by (simp add: map_concat comp_def collectIdentifiers_def first_seen_def seen_def
        concat_map_singleton)
  ultimately have "card (set ?ids) = 33"
    by (simp only: set_toList_toSet)
  moreover have dist: "distinct ?ids"
    by (rule distinct_toList_toSet)
  ultimately have len: "length ?ids = 33"
    by (simp add: distinct_card)
  then have "identifierMap ?ids (2 ^ 32) (?ids ! 32) = Some (rowBit 32 (2 ^ 32))"
    using dist by (intro identifierMap_nth) simp_all
  then have val: "subEvalutation_of evaluateExpression ?ids [] (2 ^ 32) (Inr (?ids ! 32)) = Some False"
    by (simp add: subEvalutation_of_Inr rowBit_iff)
  from state_of_Some [OF ids tops] obtain st where
    st: "state_of evaluateExpression [] auto True ?d (Some (2 ^ 32)) = Some st"
      "subEvalutation st = Some (subEvalutation_of evaluateExpression ?ids [] (2 ^ 32))"
    by blast
  have "bit (2 ^ 32 :: int) 32"
    by (simp add: bit_exp_iff)
  with ids len st val show ?thesis
    by blast
qed

text \<open>
  C7, amended. With a row \<open>r\<close> selected on an analyzed document, the model emits a
  state whose evaluation maps every name \<open>identifiers[i]\<close> with \<open>i < 32\<close> to bit
  \<open>i\<close> of \<open>r\<close> and every name with \<open>i \<ge> 32\<close> to false (\<^verbatim>\<open>&\<close> is a 32-bit
  operation), maps every entry of \<^verbatim>\<open>toplevelExpressions\<close> to its evaluation under this
  assignment, and agrees with the assignment on every name. With no row selected the
  evaluation is \<^verbatim>\<open>null\<close>.
\<close>

theorem C7_evaluation:
  "\<exists>ids tops.
     identifiers (analyze d) = Some ids \<and> toplevelExpressions (analyze d) = Some tops
     \<and> (\<exists>st m. state_of ev s l b (analyze d) (Some r) = Some st
           \<and> selectedRow st = Some r \<and> subEvalutation st = Some m
           \<and> (\<forall>i<length ids. identifierMap ids r (ids ! i) = Some (i < 32 \<and> bit r i))
           \<and> (\<forall>n. m (Inr n) = identifierMap ids r n)
           \<and> (\<forall>e\<in>set tops. m (Inl e) = Some (ev e (identifierMap ids r))))
     \<and> (\<exists>st. state_of ev s l b (analyze d) None = Some st
           \<and> selectedRow st = None \<and> subEvalutation st = None)"
proof -
  from analyze_identifiers_distinct obtain ids where
    ids: "identifiers (analyze d) = Some ids" "distinct ids"
    by blast
  from analyze_fields obtain tops where tops: "toplevelExpressions (analyze d) = Some tops"
    by blast
  let ?m = "subEvalutation_of ev ids tops r"
  have "\<exists>st. state_of ev s l b (analyze d) (Some r) = Some st
           \<and> selectedRow st = Some r \<and> subEvalutation st = Some ?m"
    using ids(1) tops by (rule state_of_Some)
  moreover have "\<forall>i<length ids. identifierMap ids r (ids ! i) = Some (i < 32 \<and> bit r i)"
    using ids(2) by (simp add: identifierMap_nth rowBit_iff)
  moreover have "\<forall>n. ?m (Inr n) = identifierMap ids r n"
    by (simp add: subEvalutation_of_Inr)
  moreover have "\<forall>e\<in>set tops. ?m (Inl e) = Some (ev e (identifierMap ids r))"
    by (simp add: subEvalutation_of_Inl)
  moreover have "\<exists>st. state_of ev s l b (analyze d) None = Some st
           \<and> selectedRow st = None \<and> subEvalutation st = None"
    by (simp add: state_of_def)
  ultimately show ?thesis using ids(1) tops by blast
qed
theorem C7_evaluation_witness:
  "(\<exists>st m. state_of evaluateExpression ''a and not b'' auto True
        (analyze ((input ''a and not b'' auto True)
          \<lparr>expressions := Some [Binary OpAND (Identifier ''a'')
                                  (Unary OpNOT (Identifier ''b''))]\<rparr>)) (Some 1) = Some st
      \<and> subEvalutation st = Some m
      \<and> m (Inr ''a'') = Some True \<and> m (Inr ''b'') = Some False
      \<and> m (Inl (Binary OpAND (Identifier ''a'') (Unary OpNOT (Identifier ''b'')))) = Some True)
   \<and> (\<exists>st m. state_of evaluateExpression ''a and not b'' auto True
        (analyze ((input ''a and not b'' auto True)
          \<lparr>expressions := Some [Binary OpAND (Identifier ''a'')
                                  (Unary OpNOT (Identifier ''b''))]\<rparr>)) (Some 3) = Some st
      \<and> subEvalutation st = Some m
      \<and> m (Inr ''a'') = Some True \<and> m (Inr ''b'') = Some True
      \<and> m (Inl (Binary OpAND (Identifier ''a'') (Unary OpNOT (Identifier ''b'')))) = Some False)"
proof -
  let ?e = "Binary OpAND (Identifier ''a'') (Unary OpNOT (Identifier ''b''))"
  let ?d = "analyze ((input ''a and not b'' auto True)\<lparr>expressions := Some [?e]\<rparr>)"
  have ids: "identifiers ?d = Some [''a'', ''b'']"
    by (simp add: analyze_def Let_def collectIdentifiers_def first_seen_def seen_def toSet_def)
  have tops: "toplevelExpressions ?d = Some [?e]"
    by (simp add: analyze_def Let_def)
  have row: "\<exists>st m. state_of evaluateExpression ''a and not b'' auto True ?d (Some r) = Some st
      \<and> subEvalutation st = Some m
      \<and> m (Inr ''a'') = Some (bit r 0) \<and> m (Inr ''b'') = Some (bit r 1)
      \<and> m (Inl ?e) = Some (bit r 0 \<and> \<not> bit r 1)" for r
  proof -
    from C7_evaluation [where d = "(input ''a and not b'' auto True)\<lparr>expressions := Some [?e]\<rparr>"
        and ev = evaluateExpression and r = r and s = "''a and not b''" and l = auto
        and b = True]
    obtain st m where st: "state_of evaluateExpression ''a and not b'' auto True ?d (Some r) = Some st"
      "subEvalutation st = Some m"
      and names: "\<forall>i<length [''a'', ''b''].
          identifierMap [''a'', ''b''] r ([''a'', ''b''] ! i) = Some (i < 32 \<and> bit r i)"
      and merged: "\<forall>n. m (Inr n) = identifierMap [''a'', ''b''] r n"
      and evals: "\<forall>e\<in>set [?e]. m (Inl e) = Some (evaluateExpression e (identifierMap [''a'', ''b''] r))"
      unfolding ids tops by auto
    from names [rule_format, of 0] names [rule_format, of 1]
    have ab: "identifierMap [''a'', ''b''] r ''a'' = Some (bit r 0)"
      "identifierMap [''a'', ''b''] r ''b'' = Some (bit r 1)"
      by simp_all
    with merged evals st show ?thesis by simp
  qed
  from row [of 1] row [of 3] show ?thesis
    by (simp add: bit_numeral_Bit1_Suc_iff [of _ 0, simplified])
qed

end
